theory Spec2Isabelle
  imports Main "HOL-Library.Sublist" "HOL-Library.AList"
begin

section \<open>JavaScript strings and values\<close>

text \<open>
  A JavaScript string is a sequence of UTF-16 code units; a code unit is a natural number
  below 65536, and no function below produces a larger one. ASCII text of the source is
  written \<open>ascii ''...''\<close>; the Chinese property names and labels of the source are
  written by their code units.
\<close>

type_synonym jstring = "nat list"

definition ascii :: "string \<Rightarrow> jstring" where
  "ascii s = map of_char s"

text \<open>
  \<open>String.prototype.toLowerCase\<close>. The Unicode case mapping is part of the platform and
  not of this program: it maps every cased letter of every script, it works on code points
  and not on code units, and it can change the length of a string. The functions of the
  program that call it take it as the parameter \<open>toLowerCase\<close>. What the theorems use of
  it is \<open>platform_lower\<close>: only the empty string is mapped to the empty string, and a
  string of ASCII code units is mapped unit by unit, \<open>A\<close>-\<open>Z\<close> to \<open>a\<close>-\<open>z\<close>.
  \<open>lower_ascii\<close> is the mapping that does this and nothing else; it stands for the
  platform's where a theorem is instantiated on ASCII names.
\<close>

definition lower_unit :: "nat \<Rightarrow> nat" where
  "lower_unit c = (if 65 \<le> c \<and> c \<le> 90 then c + 32 else c)"

definition lower_ascii :: "jstring \<Rightarrow> jstring" where
  "lower_ascii s = map lower_unit s"

definition platform_lower :: "(jstring \<Rightarrow> jstring) \<Rightarrow> bool" where
  "platform_lower toLowerCase =
     ((\<forall>s. (toLowerCase s = []) = (s = []))
      \<and> (\<forall>s. list_all (\<lambda>c. c < 128) s \<longrightarrow> toLowerCase s = map lower_unit s))"

text \<open>\<open>s.startsWith(p)\<close> is \<^term>\<open>prefix p s\<close>.\<close>

definition startsWith :: "jstring \<Rightarrow> jstring \<Rightarrow> bool" where
  "startsWith s p = prefix p s"

text \<open>Decimal numerals, as \<open>String(n)\<close> prints an integer.\<close>

fun digits :: "nat \<Rightarrow> jstring" where
  "digits n = (if n < 10 then [48 + n] else digits (n div 10) @ [48 + n mod 10])"

declare digits.simps [simp del]

definition show_int :: "int \<Rightarrow> jstring" where
  "show_int i = (if i < 0 then 45 # digits (nat (- i)) else digits (nat i))"

text \<open>
  The values that \<open>JSON.parse\<close> builds and that the handler passes around as \<open>any\<close>.
  Numbers are integers (sequence numbers, quantities, heights): a numeral with a fraction
  or an exponent is outside the model. \<open>JNaN\<close> is the number NaN, \<open>JUndefined\<close> the
  result of reading a property that is not there. An object is its list of own properties.
\<close>

datatype jsval =
    JUndefined
  | JNull
  | JBool bool
  | JNum int
  | JNaN
  | JStr jstring
  | JArr "jsval list"
  | JObj "(jstring \<times> jsval) list"

text \<open>
  Errors. \<open>ExtractError\<close> is the \<open>Error\<close> thrown by \<open>extractStructures\<close>,
  \<open>SyntaxError\<close> the one of \<open>JSON.parse\<close>, \<open>TypeError\<close> the one of the language
  (a property of \<open>null\<close> or \<open>undefined\<close>, a call of something that is no function, a
  write to a primitive in strict mode), \<open>LibraryError\<close> an exception of the spreadsheet
  or zip library, \<open>FsError\<close> one of the file system, \<open>NetworkError\<close> one of
  \<open>fetch\<close>. \<open>Unsupported\<close> is no error of the
  program: it marks an input on which the program's result needs a part of JavaScript that
  the model leaves out.
\<close>

datatype error =
  ExtractError | SyntaxError | TypeError | LibraryError | FsError | NetworkError | Unsupported

definition ebind :: "error + 'a \<Rightarrow> ('a \<Rightarrow> error + 'b) \<Rightarrow> error + 'b" where
  "ebind m f = (case m of Inl e \<Rightarrow> Inl e | Inr x \<Rightarrow> f x)"

fun truthy :: "jsval \<Rightarrow> bool" where
  "truthy JUndefined = False"
| "truthy JNull = False"
| "truthy (JBool b) = b"
| "truthy (JNum n) = (n \<noteq> 0)"
| "truthy JNaN = False"
| "truthy (JStr s) = (s \<noteq> [])"
| "truthy (JArr _) = True"
| "truthy (JObj _) = True"

text \<open>\<open>a || b\<close>\<close>

definition js_or :: "jsval \<Rightarrow> jsval \<Rightarrow> jsval" where
  "js_or a b = (if truthy a then a else b)"

fun join :: "jstring \<Rightarrow> jstring list \<Rightarrow> jstring" where
  "join sep [] = []"
| "join sep [s] = s"
| "join sep (s # t # ss) = s @ sep @ join sep (t # ss)"

text \<open>
  \<open>String(v)\<close>: an array prints its elements joined by commas, \<open>null\<close> and
  \<open>undefined\<close> elements as nothing; an object prints as \<open>[object Object]\<close>.
\<close>

fun js_String :: "jsval \<Rightarrow> jstring" where
  "js_String JUndefined = ascii ''undefined''"
| "js_String JNull = ascii ''null''"
| "js_String (JBool b) = (if b then ascii ''true'' else ascii ''false'')"
| "js_String (JNum n) = show_int n"
| "js_String JNaN = ascii ''NaN''"
| "js_String (JStr s) = s"
| "js_String (JArr xs) =
     join [44] (map (\<lambda>x. if x = JNull \<or> x = JUndefined then [] else js_String x) xs)"
| "js_String (JObj _) = ascii ''[object Object]''"

text \<open>
  The values that \<open>String(v)\<close> above prints as the platform does. A number of the model
  stands for the double of the same value, so it has to be one: an integer of magnitude at
  most \<open>2^53 - 1\<close>, which is also printed without an exponent. An object prints as
  \<open>[object Object]\<close> unless it has a \<open>toString\<close> or \<open>valueOf\<close> property of its own.
\<close>

definition max_safe_integer :: int where
  "max_safe_integer = 9007199254740991"

fun printable :: "jsval \<Rightarrow> bool" where
  "printable (JNum n) = (- max_safe_integer \<le> n \<and> n \<le> max_safe_integer)"
| "printable (JArr xs) = (\<forall>x \<in> set xs. printable x)"
| "printable (JObj kvs) =
     (map_of kvs (ascii ''toString'') = None \<and> map_of kvs (ascii ''valueOf'') = None)"
| "printable v = True"

text \<open>
  \<open>v.name\<close> for the property names the source uses. Reading a property of \<open>null\<close> or
  \<open>undefined\<close> throws; an array and a string have \<open>length\<close>; every other read of a
  name that is not an own property gives \<open>undefined\<close>.
\<close>

fun get_prop :: "jsval \<Rightarrow> jstring \<Rightarrow> error + jsval" where
  "get_prop JUndefined k = Inl TypeError"
| "get_prop JNull k = Inl TypeError"
| "get_prop (JObj kvs) k = Inr (case map_of kvs k of Some v \<Rightarrow> v | None \<Rightarrow> JUndefined)"
| "get_prop (JArr xs) k =
     Inr (if k = ascii ''length'' then JNum (int (length xs)) else JUndefined)"
| "get_prop (JStr s) k =
     Inr (if k = ascii ''length'' then JNum (int (length s)) else JUndefined)"
| "get_prop v k = Inr JUndefined"

text \<open>The value of the property \<open>k\<close> of an object with the own properties \<open>kvs\<close>.\<close>

definition own_prop :: "(jstring \<times> jsval) list \<Rightarrow> jstring \<Rightarrow> jsval" where
  "own_prop kvs k = (case map_of kvs k of Some v \<Rightarrow> v | None \<Rightarrow> JUndefined)"

text \<open>\<open>v[i]\<close> for a numeric index \<open>i\<close>.\<close>

fun get_index :: "jsval \<Rightarrow> nat \<Rightarrow> error + jsval" where
  "get_index JUndefined i = Inl TypeError"
| "get_index JNull i = Inl TypeError"
| "get_index (JArr xs) i = Inr (if i < length xs then xs ! i else JUndefined)"
| "get_index (JStr s) i = Inr (if i < length s then JStr [s ! i] else JUndefined)"
| "get_index (JObj kvs) i =
     Inr (case map_of kvs (digits i) of Some v \<Rightarrow> v | None \<Rightarrow> JUndefined)"
| "get_index v i = Inr JUndefined"

text \<open>
  \<open>v[i] = x\<close>. An array is extended when the index is past its end. The module is strict
  code, so a write to a primitive throws.
\<close>

fun set_index :: "jsval \<Rightarrow> nat \<Rightarrow> jsval \<Rightarrow> error + jsval" where
  "set_index (JArr xs) i x =
     Inr (JArr (if i < length xs then xs[i := x]
                else xs @ replicate (i - length xs) JUndefined @ [x]))"
| "set_index (JObj kvs) i x = Inr (JObj (AList.update (digits i) x kvs))"
| "set_index v i x = Inl TypeError"

text \<open>
  \<open>v[name] = x\<close> for a property name. A named property on an array is outside the
  model.
\<close>

fun set_prop :: "jsval \<Rightarrow> jstring \<Rightarrow> jsval \<Rightarrow> error + jsval" where
  "set_prop (JObj kvs) k x = Inr (JObj (AList.update k x kvs))"
| "set_prop (JArr xs) k x = Inl Unsupported"
| "set_prop v k x = Inl TypeError"

text \<open>
  \<open>v > n\<close> for an integer \<open>n\<close>. \<open>undefined\<close> and NaN compare false, \<open>null\<close> counts 0,
  a boolean 0 or 1, an object is NaN; the number a string or an array stands for is outside
  the model.
\<close>

fun js_gt :: "jsval \<Rightarrow> int \<Rightarrow> error + bool" where
  "js_gt (JNum m) n = Inr (m > n)"
| "js_gt JUndefined n = Inr False"
| "js_gt JNaN n = Inr False"
| "js_gt JNull n = Inr (0 > n)"
| "js_gt (JBool b) n = Inr ((if b then 1 else 0) > n)"
| "js_gt (JObj _) n = Inr False"
| "js_gt (JStr _) n = Inl Unsupported"
| "js_gt (JArr _) n = Inl Unsupported"

section \<open>Saving the uploaded CAD files (the POST handler, before its try block)\<close>

record upload =
  u_name :: jstring
  u_bytes :: "nat list"

record stp_file =
  f_path :: jstring
  f_name :: jstring

text \<open>
  \<open>path.join(UPLOAD_DIR, slug, name)\<close> for a plain file name: \<open>path.join\<close> drops
  an empty segment, so an empty name gives the session directory itself.
\<close>

definition path_join :: "jstring \<Rightarrow> jstring \<Rightarrow> jstring" where
  "path_join dir name = (if name = [] then dir else dir @ [47] @ name)"

text \<open>
  \<open>for (const sf of stpUploads) { p = path.join(...); await fs.writeFile(p, ...);
  stpInfo.push({ path: p, name: sf.name }) }\<close>. The session directory \<open>dir\<close> has been
  created by \<open>fs.mkdir\<close> just before, so writing a file at that very path fails; whether
  any other path can be written is the file system's answer \<open>writable\<close>. A failed write
  is outside the handler's try block and ends the request.
\<close>

fun save_uploads :: "(jstring \<Rightarrow> bool) \<Rightarrow> jstring \<Rightarrow> upload list \<Rightarrow> error + stp_file list" where
  "save_uploads writable dir [] = Inr []"
| "save_uploads writable dir (sf # rest) =
     (let p = path_join dir (u_name sf)
      in if p = dir \<or> \<not> writable p then Inl FsError
         else ebind (save_uploads writable dir rest) (\<lambda>info.
                Inr (\<lparr>f_path = p, f_name = u_name sf\<rparr> # info)))"

section \<open>Part-image reconciliation (the POST handler, "Map STP filenames to parts")\<close>

definition k_type :: jstring where "k_type = ascii ''type''"
definition k_data :: jstring where "k_data = ascii ''data''"
definition k_length :: jstring where "k_length = ascii ''length''"
definition k_products :: jstring where "k_products = ascii ''products''"
definition main_table_data_row :: jstring where
  "main_table_data_row = ascii ''main_table_data_row''"

text \<open>
  The product properties "part name" (U+96F6 U+4EF6 U+540D) and "part image"
  (U+96F6 U+4EF6 U+56FE U+7247).
\<close>

definition k_part_name :: jstring where "k_part_name = [38646, 20214, 21517]"
definition k_part_image :: jstring where "k_part_image = [38646, 20214, 22270, 29255]"

text \<open>\<open>stpInfo.map(f => f.name.toLowerCase())\<close>\<close>

definition stpNames :: "(jstring \<Rightarrow> jstring) \<Rightarrow> stp_file list \<Rightarrow> jstring list" where
  "stpNames toLowerCase stpInfo = map (\<lambda>f. toLowerCase (f_name f)) stpInfo"

text \<open>
  \<open>stpNames.find(n => n.startsWith(partNum))\<close> followed by \<open>if (match)\<close>: the first
  name with the prefix, when there is one and it is not the empty string.
\<close>

definition find_match :: "jstring list \<Rightarrow> jstring \<Rightarrow> jstring option" where
  "find_match names partNum =
     (case find (\<lambda>n. startsWith n partNum) names of
        None \<Rightarrow> None
      | Some m \<Rightarrow> if truthy (JStr m) then Some m else None)"

text \<open>The body of the loop over the layout rows; it returns the row as the loop leaves it.\<close>

definition reconcile_item :: "(jstring \<Rightarrow> jstring) \<Rightarrow> jstring list \<Rightarrow> jsval \<Rightarrow> error + jsval" where
  "reconcile_item toLowerCase names item =
     ebind (get_prop item k_type) (\<lambda>t.
       if t \<noteq> JStr main_table_data_row then Inr item
       else ebind (get_prop item k_data) (\<lambda>d.
         if \<not> truthy d then Inr item
         else ebind (get_prop d k_length) (\<lambda>len.
           ebind (js_gt len 2) (\<lambda>long.
             if \<not> long then Inr item
             else ebind (get_index d 2) (\<lambda>pn.
               let partNum = toLowerCase (js_String (js_or pn (JStr [])))
               in case find_match names partNum of
                    None \<Rightarrow> Inr item
                  | Some m \<Rightarrow>
                      ebind (set_index d 1 (JStr m)) (\<lambda>d'. set_prop item k_data d'))))))"

text \<open>The body of the loop over the quotation's products.\<close>

definition reconcile_product :: "(jstring \<Rightarrow> jstring) \<Rightarrow> jstring list \<Rightarrow> jsval \<Rightarrow> error + jsval" where
  "reconcile_product toLowerCase names p =
     ebind (get_prop p k_part_name) (\<lambda>pn.
       let partNum = toLowerCase (js_String (js_or pn (JStr [])))
       in case find_match names partNum of
            None \<Rightarrow> Inr p
          | Some m \<Rightarrow> set_prop p k_part_image (JStr m))"

text \<open>A loop whose body may throw: the first exception ends it.\<close>

fun map_err :: "('a \<Rightarrow> error + 'b) \<Rightarrow> 'a list \<Rightarrow> error + 'b list" where
  "map_err f [] = Inr []"
| "map_err f (x # xs) = ebind (f x) (\<lambda>y. ebind (map_err f xs) (\<lambda>ys. Inr (y # ys)))"

text \<open>
  \<open>for (const item of layout) ...\<close>; the layout is an array (\<open>any[]\<close>), given by
  its elements.
\<close>

definition reconcile_layout :: "(jstring \<Rightarrow> jstring) \<Rightarrow> jstring list \<Rightarrow> jsval list \<Rightarrow> error + jsval list" where
  "reconcile_layout toLowerCase names items = map_err (reconcile_item toLowerCase names) items"

text \<open>\<open>if (Array.isArray(quotation.products)) for (const p of quotation.products) ...\<close>\<close>

definition reconcile_quotation :: "(jstring \<Rightarrow> jstring) \<Rightarrow> jstring list \<Rightarrow> jsval \<Rightarrow> error + jsval" where
  "reconcile_quotation toLowerCase names q =
     ebind (get_prop q k_products) (\<lambda>ps.
       case ps of
         JArr xs \<Rightarrow>
           ebind (map_err (reconcile_product toLowerCase names) xs) (\<lambda>xs'.
             set_prop q k_products (JArr xs'))
       | _ \<Rightarrow> Inr q)"


section \<open>Rendering the CAD files (renderStpFiles)\<close>

type_synonym buffer = "nat list"

text \<open>
  The image map \<open>Record<string, Buffer>\<close>, by its own entries (a name that every object
  inherits, such as \<open>constructor\<close>, is not modelled as a key).
\<close>

type_synonym image_map = "jstring \<rightharpoonup> buffer"

text \<open>
  What the world answers while one file is rendered: \<open>fs.readFile\<close> throws, \<open>fetch\<close>
  throws, the response is not \<open>ok\<close>, reading its body throws, \<open>JSZip.loadAsync\<close>
  throws, or the zip arrives. A zip is \<open>zip.files\<close> in the order of \<open>Object.keys\<close>:
  the entry's name, whether it is a directory, and its bytes (\<open>None\<close> when
  \<open>async("nodebuffer")\<close> throws).
\<close>

datatype rendered =
    ReadThrows
  | FetchThrows
  | NotOk
  | BodyThrows
  | ZipThrows
  | Zip "(jstring \<times> bool \<times> buffer option) list"

definition upper_ascii :: "nat \<Rightarrow> nat" where
  "upper_ascii c = (if 97 \<le> c \<and> c \<le> 122 then c - 32 else c)"

text \<open>\<open>/\.(png|jpe?g)$/i.test(n)\<close>\<close>

definition is_image_name :: "jstring \<Rightarrow> bool" where
  "is_image_name n =
     (let u = map upper_ascii n
      in suffix (ascii ''.PNG'') u \<or> suffix (ascii ''.JPG'') u \<or> suffix (ascii ''.JPEG'') u)"

text \<open>
  The try block for one file: \<open>Inl\<close> an exception, \<open>Inr None\<close> no image (the response
  was not \<open>ok\<close>, or the zip holds no image file), \<open>Inr (Some b)\<close> the bytes of the first
  image file of the zip.
\<close>

fun render_one :: "rendered \<Rightarrow> error + buffer option" where
  "render_one ReadThrows = Inl FsError"
| "render_one FetchThrows = Inl NetworkError"
| "render_one NotOk = Inr None"
| "render_one BodyThrows = Inl NetworkError"
| "render_one ZipThrows = Inl LibraryError"
| "render_one (Zip entries) =
     (case find (\<lambda>(n, dir, bytes). \<not> dir \<and> is_image_name n) entries of
        None \<Rightarrow> Inr None
      | Some (n, dir, bytes) \<Rightarrow>
          (case bytes of None \<Rightarrow> Inl LibraryError | Some b \<Rightarrow> Inr (Some b)))"

text \<open>
  The loop over the files, each with the world's answer for it. The catch clause logs and
  goes on with the map as it is.
\<close>

fun render_loop :: "(stp_file \<times> rendered) list \<Rightarrow> image_map \<Rightarrow> error + image_map" where
  "render_loop [] m = Inr m"
| "render_loop ((f, io) # rest) m =
     (case render_one io of
        Inl e \<Rightarrow> render_loop rest m
      | Inr None \<Rightarrow> render_loop rest m
      | Inr (Some b) \<Rightarrow> render_loop rest (m(f_name f \<mapsto> b)))"

text \<open>\<open>url\<close> is \<open>process.env.PYTHON_RENDERER_URL\<close>: not set, or a string.\<close>

definition renderStpFiles :: "jstring option \<Rightarrow> (stp_file \<times> rendered) list \<Rightarrow> error + image_map" where
  "renderStpFiles url files =
     (if url = None \<or> url = Some [] then Inr Map.empty else render_loop files Map.empty)"

section \<open>The spreadsheet emitters\<close>

text \<open>
  The spreadsheet library (ExcelJS) is not part of the repository. A worksheet is therefore
  the sequence of the calls the emitter makes on it, in order: this is what the emitted
  workbook is built from. \<open>AddImage b n\<close> is \<open>wb.addImage({ buffer: b, extension: 'png' })\<close>
  followed by \<open>ws.addImage(id, `B${n}:B${n}`)\<close>: the image anchored at column B of row
  \<open>n\<close>. \<open>AddMember k n\<close> is the same pair of calls when the value handed over as the
  buffer is no buffer of the image map but the member \<open>k\<close> that the map, a plain object,
  inherits from \<open>Object.prototype\<close> (see \<open>lookup_image\<close> below).
\<close>

datatype ws_op =
    SetColumns "(jsval \<times> nat) list"
  | MergeCells jsval
  | SetCell jsval jsval
  | SetCellProp jsval jstring jsval
  | SetRowCell nat jsval jsval
  | SetRowValues nat jsval
  | AddRow nat "jsval list"
  | SetRowProp nat jstring jsval
  | AddImage buffer nat
  | AddMember jstring nat
  | SetHeight nat jsval

text \<open>
  \<open>row.height\<close> of row \<open>n\<close>: what was assigned last; the library gives a row no
  height of its own, so a row never assigned reads \<open>undefined\<close>.
\<close>

fun last_height :: "ws_op list \<Rightarrow> nat \<Rightarrow> jsval option" where
  "last_height [] n = None"
| "last_height (op # ops) n =
     (case last_height ops n of
        Some h \<Rightarrow> Some h
      | None \<Rightarrow> (case op of SetHeight m h \<Rightarrow> if m = n then Some h else None | _ \<Rightarrow> None))"

definition row_height :: "ws_op list \<Rightarrow> nat \<Rightarrow> jsval" where
  "row_height ops n = (case last_height ops n of Some h \<Rightarrow> h | None \<Rightarrow> JUndefined)"

text \<open>The images anchored in row \<open>n\<close>.\<close>

definition row_images :: "ws_op list \<Rightarrow> nat \<Rightarrow> buffer list" where
  "row_images ops n = concat (map (\<lambda>op. case op of AddImage b m \<Rightarrow> if m = n then [b] else []
                                               | _ \<Rightarrow> []) ops)"

text \<open>
  \<open>Number(v)\<close>, and \<open>Math.max(a, b)\<close>, which is NaN as soon as one argument is; the
  number a non-empty string or an array stands for is outside the model.
\<close>

fun to_number :: "jsval \<Rightarrow> error + jsval" where
  "to_number JUndefined = Inr JNaN"
| "to_number JNull = Inr (JNum 0)"
| "to_number (JBool b) = Inr (JNum (if b then 1 else 0))"
| "to_number (JNum n) = Inr (JNum n)"
| "to_number JNaN = Inr JNaN"
| "to_number (JStr s) = (if s = [] then Inr (JNum 0) else Inl Unsupported)"
| "to_number (JArr xs) = Inl Unsupported"
| "to_number (JObj kvs) = Inr JNaN"

definition math_max :: "jsval \<Rightarrow> jsval \<Rightarrow> error + jsval" where
  "math_max a b =
     ebind (to_number a) (\<lambda>x. ebind (to_number b) (\<lambda>y.
       case (x, y) of (JNum m, JNum n) \<Rightarrow> Inr (JNum (max m n)) | _ \<Rightarrow> Inr JNaN))"

text \<open>
  \<open>images[key]\<close>: the key is turned into a string. The map is a plain object
  (\<open>const map: Record<string, Buffer> = {}\<close>), so a key that is no entry of the map still
  finds what every object inherits from \<open>Object.prototype\<close>: a function, or for
  \<open>__proto__\<close> the prototype itself; each of them is truthy. An entry under the name
  \<open>__proto__\<close> would replace the prototype of the map; what a key that is no entry finds
  then is outside the model.
\<close>

definition object_prototype_members :: "jstring list" where
  "object_prototype_members = map ascii
     [''constructor'', ''__defineGetter__'', ''__defineSetter__'', ''hasOwnProperty'',
      ''__lookupGetter__'', ''__lookupSetter__'', ''isPrototypeOf'', ''propertyIsEnumerable'',
      ''toString'', ''valueOf'', ''__proto__'', ''toLocaleString'']"

datatype found = Entry buffer | Member jstring | Nothing

definition lookup_image :: "image_map \<Rightarrow> jsval \<Rightarrow> error + found" where
  "lookup_image images key =
     (let k = js_String key
      in case images k of
           Some b \<Rightarrow> Inr (Entry b)
         | None \<Rightarrow>
             if images (ascii ''__proto__'') \<noteq> None then Inl Unsupported
             else if k \<in> set object_prototype_members then Inr (Member k)
             else Inr Nothing)"

text \<open>The worksheet has an image: one of the calls anchors one.\<close>

definition has_image :: "ws_op list \<Rightarrow> bool" where
  "has_image ops =
     list_ex (\<lambda>op. case op of AddImage b n \<Rightarrow> True | AddMember k n \<Rightarrow> True | _ \<Rightarrow> False) ops"

subsection \<open>buildProductionOrder\<close>

definition k_merge_cells :: jstring where "k_merge_cells = ascii ''merge_cells''"
definition k_text :: jstring where "k_text = ascii ''text''"
definition k_cells :: jstring where "k_cells = ascii ''cells''"
definition k_col_letter :: jstring where "k_col_letter = ascii ''col_letter''"
definition k_value :: jstring where "k_value = ascii ''value''"
definition k_headers :: jstring where "k_headers = ascii ''headers''"
definition k_height :: jstring where "k_height = ascii ''height''"
definition title_row :: jstring where "title_row = ascii ''title_row''"
definition header_detail_row :: jstring where "header_detail_row = ascii ''header_detail_row''"
definition main_table_header_row :: jstring where
  "main_table_header_row = ascii ''main_table_header_row''"

text \<open>
  The nine column headers of the production order, each with width 15 (sequence number,
  product image, product number, product name, specification, material, quantity,
  processing, requirements).
\<close>

definition production_columns :: "(jsval \<times> nat) list" where
  "production_columns = map (\<lambda>h. (JStr h, 15))
     [[24207, 21495], [20135, 21697, 22270, 29255], [20135, 21697, 32534, 21495],
      [20135, 21697, 21517, 31216], [35268, 26684], [26448, 26009], [25968, 37327],
      [21152, 24037, 26041, 24335], [24037, 33402, 35201, 27714]]"

text \<open>
  Three calls take a cell address that comes from the model's output:
  \<open>ws.mergeCells(x)\<close>, \<open>ws.getCell(x)\<close> and \<open>row.getCell(x)\<close>. Whether the library
  throws on such a call is the library's matter: \<open>rejects ops op\<close> says whether it throws
  on the call \<open>op\<close> made after the calls \<open>ops\<close>.
\<close>

definition call_lib :: "(ws_op list \<Rightarrow> ws_op \<Rightarrow> bool) \<Rightarrow> ws_op list \<Rightarrow> ws_op \<Rightarrow> error + ws_op list" where
  "call_lib rejects ops op = (if rejects ops op then Inl LibraryError else Inr (ops @ [op]))"

text \<open>\<open>s.split(":")[1]\<close>: what stands between the first colon and the next one.\<close>

definition split_colon_1 :: "jstring \<Rightarrow> jsval" where
  "split_colon_1 s =
     (case dropWhile (\<lambda>c. c \<noteq> 58) s of
        [] \<Rightarrow> JUndefined
      | c # rest \<Rightarrow> JStr (takeWhile (\<lambda>c. c \<noteq> 58) rest))"

text \<open>\<open>item.cells.forEach(c => row.getCell(c.col_letter).value = c.value)\<close>\<close>

fun header_cells :: "(ws_op list \<Rightarrow> ws_op \<Rightarrow> bool) \<Rightarrow> nat \<Rightarrow> jsval list \<Rightarrow> ws_op list \<Rightarrow> error + ws_op list" where
  "header_cells rejects r [] ops = Inr ops"
| "header_cells rejects r (c # cs) ops =
     ebind (get_prop c k_col_letter) (\<lambda>col.
       ebind (get_prop c k_value) (\<lambda>v.
         ebind (call_lib rejects ops (SetRowCell r col v)) (\<lambda>ops1.
           header_cells rejects r cs ops1)))"

text \<open>
  The body of the switch for the row \<open>r\<close>, then \<open>row.height = item.height\<close>, which every
  kind of row ends with.
\<close>

definition production_switch :: "(ws_op list \<Rightarrow> ws_op \<Rightarrow> bool) \<Rightarrow> image_map \<Rightarrow> nat \<Rightarrow> jsval \<Rightarrow> ws_op list \<Rightarrow> error + ws_op list" where
  "production_switch rejects images r item ops =
     ebind (get_prop item k_type) (\<lambda>t.
       if t = JStr title_row then
         ebind (get_prop item k_merge_cells) (\<lambda>mc.
           ebind (call_lib rejects ops (MergeCells mc)) (\<lambda>ops1.
             case mc of
               JStr s \<Rightarrow>
                 ebind (get_prop item k_text) (\<lambda>txt.
                   call_lib rejects ops1 (SetCell (split_colon_1 s) txt))
             | _ \<Rightarrow> Inl TypeError))
       else if t = JStr header_detail_row then
         ebind (get_prop item k_cells) (\<lambda>cells.
           case cells of
             JArr cs \<Rightarrow> header_cells rejects r cs ops
           | _ \<Rightarrow> Inl TypeError)
       else if t = JStr main_table_header_row \<or> t = JStr main_table_data_row then
         ebind (get_prop item k_headers) (\<lambda>headers.
           ebind (get_prop item k_data) (\<lambda>data.
             let ops1 = ops @ [SetRowValues r (js_or headers data)]
             in if t = JStr main_table_data_row then
                  ebind (get_index data 1) (\<lambda>key.
                    if truthy key then
                      ebind (lookup_image images key) (\<lambda>img.
                        case img of
                          Nothing \<Rightarrow> Inr ops1
                        | Entry b \<Rightarrow>
                            ebind (math_max (js_or (row_height ops1 r) (JNum 18)) (JNum 80))
                              (\<lambda>h. Inr (ops1 @ [AddImage b r, SetHeight r h]))
                        | Member k \<Rightarrow>
                            ebind (math_max (js_or (row_height ops1 r) (JNum 18)) (JNum 80))
                              (\<lambda>h. Inr (ops1 @ [AddMember k r, SetHeight r h])))
                    else Inr ops1)
                else Inr ops1))
       else Inr ops)"

definition production_row :: "(ws_op list \<Rightarrow> ws_op \<Rightarrow> bool) \<Rightarrow> image_map \<Rightarrow> nat \<Rightarrow> jsval \<Rightarrow> ws_op list \<Rightarrow> error + ws_op list" where
  "production_row rejects images r item ops =
     ebind (production_switch rejects images r item ops) (\<lambda>ops1.
       ebind (get_prop item k_height) (\<lambda>h. Inr (ops1 @ [SetHeight r h])))"

text \<open>\<open>let r = 1; for (const item of layout) { const row = ws.getRow(r++); ... }\<close>\<close>

fun production_rows :: "(ws_op list \<Rightarrow> ws_op \<Rightarrow> bool) \<Rightarrow> image_map \<Rightarrow> nat \<Rightarrow> jsval list \<Rightarrow> ws_op list \<Rightarrow> error + ws_op list" where
  "production_rows rejects images r [] ops = Inr ops"
| "production_rows rejects images r (item # items) ops =
     ebind (production_row rejects images r item ops) (\<lambda>ops1.
       production_rows rejects images (Suc r) items ops1)"

text \<open>The workbook that \<open>writeBuffer\<close> serialises: the calls made on its one worksheet.\<close>

definition buildProductionOrder :: "(ws_op list \<Rightarrow> ws_op \<Rightarrow> bool) \<Rightarrow> jsval list \<Rightarrow> image_map \<Rightarrow> error + ws_op list" where
  "buildProductionOrder rejects layout images =
     production_rows rejects images 1 layout [SetColumns production_columns]"

subsection \<open>buildQuotation\<close>

definition k_quote_number :: jstring where "k_quote_number = ascii ''quote_number''"
definition k_company_info :: jstring where "k_company_info = ascii ''company_info''"
definition k_party_a :: jstring where "k_party_a = ascii ''party_a''"
definition k_party_b :: jstring where "k_party_b = ascii ''party_b''"
definition k_tel_b :: jstring where "k_tel_b = ascii ''tel_b''"
definition k_fax_b :: jstring where "k_fax_b = ascii ''fax_b''"
definition k_email_b :: jstring where "k_email_b = ascii ''email_b''"
definition k_address_b :: jstring where "k_address_b = ascii ''address_b''"
definition k_payment_terms :: jstring where "k_payment_terms = ascii ''payment_terms''"
definition k_acceptance_standard :: jstring where
  "k_acceptance_standard = ascii ''acceptance_standard''"
definition k_notice :: jstring where "k_notice = ascii ''notice''"
definition k_signature_date :: jstring where "k_signature_date = ascii ''signature_date''"

text \<open>
  The Chinese property names of a product: sequence number, surface, material, quantity,
  unit price, line total, notes (part name and part image are above).
\<close>

definition k_seq :: jstring where "k_seq = [24207, 21495]"
definition k_surface :: jstring where "k_surface = [34920, 38754]"
definition k_material :: jstring where "k_material = [26448, 36136]"
definition k_quantity :: jstring where "k_quantity = [25968, 37327]"
definition k_unit_price :: jstring where "k_unit_price = [21333, 20215]"
definition k_line_total :: jstring where "k_line_total = [21512, 35745]"
definition k_notes :: jstring where "k_notes = [22791, 27880]"

text \<open>The labels of the quotation sheet.\<close>

definition l_title :: jstring where
  "l_title = [25163, 26495, 25253, 20215, 32, 32534, 21495, 58, 32]"
definition l_party_a :: jstring where "l_party_a = [30002, 26041, 58]"
definition l_party_b :: jstring where "l_party_b = [20057, 26041, 58]"
definition l_contact :: jstring where "l_contact = [32852, 31995, 20154, 58]"
definition l_contact_b :: jstring where "l_contact_b = [32852, 31995, 20154, 58, 36158, 33459]"
definition l_address :: jstring where "l_address = [22320, 22336, 58]"
definition l_total :: jstring where "l_total = [35745, 58]"
definition l_untaxed :: jstring where
  "l_untaxed = [26410, 31246, 32, 24635, 20215, 65306, 40, 20154, 27665, 24065, 41, 32]"
definition l_cycle :: jstring where "l_cycle = [25163, 26495, 21152, 24037, 21608, 26399, 65306]"
definition l_payment :: jstring where "l_payment = [20184, 27454, 26041, 24335, 65306]"
definition l_monthly :: jstring where "l_monthly = [26376, 32467, 51, 48, 22825]"
definition l_delivery :: jstring where "l_delivery = [20132, 36135, 26085, 26399, 65306]"
definition l_acceptance :: jstring where "l_acceptance = [39564, 25910, 26631, 20934, 65306]"
definition l_signature :: jstring where "l_signature = [20057, 26041, 31614, 21517, 30830, 35748]"

definition quotation_headers :: "jsval list" where
  "quotation_headers = map JStr
     [k_seq, k_part_image, k_part_name, k_surface, k_material, k_quantity, k_unit_price,
      k_line_total, k_notes]"

text \<open>
  The worksheet with the number of its last row. \<open>ws.addRow(values)\<close> makes the row
  after the last one.
\<close>

type_synonym sheet = "ws_op list \<times> nat"

definition add_row :: "jsval list \<Rightarrow> sheet \<Rightarrow> sheet" where
  "add_row vals sh = (fst sh @ [AddRow (Suc (snd sh)) vals], Suc (snd sh))"

definition do_op :: "ws_op \<Rightarrow> sheet \<Rightarrow> sheet" where
  "do_op op sh = (fst sh @ [op], snd sh)"

text \<open>The address \<open>`${a}${n}:${b}${n}`\<close> for column letters \<open>a\<close>, \<open>b\<close> and row \<open>n\<close>.\<close>

definition row_range :: "string \<Rightarrow> string \<Rightarrow> nat \<Rightarrow> jsval" where
  "row_range a b n = JStr (ascii a @ digits n @ [58] @ ascii b @ digits n)"

text \<open>One row of the company block: the row, its two merges, its height.\<close>

definition info_row :: "jsval list \<Rightarrow> sheet \<Rightarrow> sheet" where
  "info_row vals sh =
     (let sh1 = add_row vals sh; n = snd sh1
      in do_op (SetHeight n (JNum 18))
           (do_op (MergeCells (row_range ''E'' ''I'' n))
              (do_op (MergeCells (row_range ''A'' ''D'' n)) sh1)))"

text \<open>
  The six rows of the company block, built from \<open>ci = q.company_info\<close>. The string
  \<open>`TEL:${ci.tel_b || ""}`\<close> is the label followed by \<open>String(ci.tel_b || "")\<close>.
\<close>

definition infoRows :: "jsval \<Rightarrow> error + jsval list list" where
  "infoRows ci =
     ebind (get_prop ci k_party_a) (\<lambda>pa.
     ebind (get_prop ci k_party_b) (\<lambda>pb.
     ebind (get_prop ci k_tel_b) (\<lambda>tel.
     ebind (get_prop ci k_fax_b) (\<lambda>fax.
     ebind (get_prop ci k_email_b) (\<lambda>email.
     ebind (get_prop ci k_address_b) (\<lambda>addr.
       Inr [[JStr (l_party_a @ js_String pa), JStr [], JStr [], JStr [],
               JStr (l_party_b @ js_String pb)],
            [JStr l_contact, JStr [], JStr [], JStr [], JStr l_contact_b],
            [JStr (ascii ''TEL:''), JStr [], JStr [], JStr [],
               JStr (ascii ''TEL:'' @ js_String (js_or tel (JStr [])))],
            [JStr (ascii ''FAX:''), JStr [], JStr [], JStr [],
               JStr (ascii ''FAX:'' @ js_String (js_or fax (JStr [])))],
            [JStr (ascii ''E-mail:''), JStr [], JStr [], JStr [],
               JStr (ascii ''E-mail:'' @ js_String (js_or email (JStr [])))],
            [JStr l_address, JStr [], JStr [], JStr [],
               JStr (l_address @ js_String (js_or addr (JStr [])))]]))))))"

text \<open>The body of \<open>q.products.forEach(product => ...)\<close>.\<close>

definition quotation_product :: "image_map \<Rightarrow> jsval \<Rightarrow> sheet \<Rightarrow> error + sheet" where
  "quotation_product images product sh =
     ebind (get_prop product k_seq) (\<lambda>seq.
     ebind (get_prop product k_part_image) (\<lambda>img.
     ebind (get_prop product k_part_name) (\<lambda>name.
     ebind (get_prop product k_surface) (\<lambda>surface.
     ebind (get_prop product k_material) (\<lambda>material.
     ebind (get_prop product k_quantity) (\<lambda>quantity.
     ebind (get_prop product k_notes) (\<lambda>notes.
       let sh1 = add_row [seq, img, name, surface, material, quantity, JStr [], JStr [], notes] sh;
           n = snd sh1;
           key = js_or img name
       in ebind (lookup_image images key) (\<lambda>img.
            case img of
              Entry b \<Rightarrow>
                ebind (math_max (row_height (fst sh1) n) (JNum 80)) (\<lambda>h.
                  Inr (do_op (SetHeight n h) (do_op (AddImage b n) sh1)))
            | Member k \<Rightarrow>
                ebind (math_max (row_height (fst sh1) n) (JNum 80)) (\<lambda>h.
                  Inr (do_op (SetHeight n h) (do_op (AddMember k n) sh1)))
            | Nothing \<Rightarrow> Inr (do_op (SetHeight n (JNum 18)) sh1)))))))))"

fun quotation_products :: "image_map \<Rightarrow> jsval list \<Rightarrow> sheet \<Rightarrow> error + sheet" where
  "quotation_products images [] sh = Inr sh"
| "quotation_products images (p # ps) sh =
     ebind (quotation_product images p sh) (\<lambda>sh1. quotation_products images ps sh1)"

text \<open>One of the lines below the table: the row, merged from A to I, height 18.\<close>

definition info_line :: "jsval \<Rightarrow> sheet \<Rightarrow> sheet" where
  "info_line v sh =
     (let sh1 = add_row [v] sh; n = snd sh1
      in do_op (SetHeight n (JNum 18)) (do_op (MergeCells (row_range ''A'' ''I'' n)) sh1))"

definition quotation_widths :: "(jsval \<times> nat) list" where
  "quotation_widths = map (\<lambda>w. (JUndefined, w)) [6, 20, 20, 16, 14, 8, 12, 12, 18]"

text \<open>The sheet after the title: cell A1 merged to I1, its value and style, row 1.\<close>

definition quotation_title :: "jsval \<Rightarrow> sheet" where
  "quotation_title number =
     ([MergeCells (JStr (ascii ''A1:I1'')),
       SetCell (JStr (ascii ''A1'')) (JStr (l_title @ js_String number)),
       SetCellProp (JStr (ascii ''A1'')) (ascii ''alignment'')
         (JObj [(ascii ''horizontal'', JStr (ascii ''center'')),
                (ascii ''vertical'', JStr (ascii ''middle''))]),
       SetCellProp (JStr (ascii ''A1'')) (ascii ''font'')
         (JObj [(ascii ''size'', JNum 16), (ascii ''bold'', JBool True)]),
       SetHeight 1 (JNum 28)], 1)"

text \<open>The rows after the products: the total row, the six lines, the signature row.\<close>

definition quotation_tail :: "jsval \<Rightarrow> sheet \<Rightarrow> error + sheet" where
  "quotation_tail q sh =
     (let sh1 = add_row [JStr l_total, JStr [], JStr [], JStr [], JStr [], JStr [], JStr []] sh;
          t = snd sh1;
          sh2 = do_op (SetHeight t (JNum 18))
                 (do_op (SetRowProp t (ascii ''alignment'')
                           (JObj [(ascii ''horizontal'', JStr (ascii ''right''))]))
                   (do_op (MergeCells (row_range ''G'' ''H'' t))
                     (do_op (MergeCells (row_range ''A'' ''F'' t)) sh1)))
      in ebind (get_prop q k_payment_terms) (\<lambda>pay.
         ebind (get_prop q k_acceptance_standard) (\<lambda>acc.
         ebind (get_prop q k_notice) (\<lambda>notice.
           let sh3 = foldl (\<lambda>s v. info_line v s) sh2
                       [JStr l_untaxed, JStr l_cycle,
                        JStr (l_payment @ js_String (js_or pay (JStr l_monthly))),
                        JStr l_delivery, JStr (l_acceptance @ js_String acc), notice]
           in ebind (get_prop q k_signature_date) (\<lambda>date.
                let sh4 = add_row [JStr [], JStr [], JStr [], JStr [], JStr [],
                                   JStr l_signature, JStr [], date] sh3;
                    g = snd sh4
                in Inr (do_op (SetHeight g (JNum 20))
                         (do_op (MergeCells (row_range ''H'' ''I'' g))
                           (do_op (MergeCells (row_range ''F'' ''G'' g)) sh4))))))))"

text \<open>
  \<open>buildQuotation(q, images)\<close>. \<open>q.products.forEach\<close> needs an array: on anything
  else the call throws.
\<close>

definition buildQuotation :: "jsval \<Rightarrow> image_map \<Rightarrow> error + ws_op list" where
  "buildQuotation q images =
     ebind (get_prop q k_quote_number) (\<lambda>number.
     ebind (get_prop q k_company_info) (\<lambda>ci.
     ebind (infoRows ci) (\<lambda>rows.
       let sh1 = foldl (\<lambda>s vals. info_row vals s) (quotation_title number) rows;
           headerStartRow = Suc (snd sh1);
           sh2 = do_op (SetHeight headerStartRow (JNum 22)) (add_row quotation_headers sh1)
       in ebind (get_prop q k_products) (\<lambda>products.
            case products of
              JArr ps \<Rightarrow>
                ebind (quotation_products images ps sh2) (\<lambda>sh3.
                ebind (quotation_tail q sh3) (\<lambda>sh4.
                  Inr (fst sh4 @ [SetColumns quotation_widths])))
            | _ \<Rightarrow> Inl TypeError))))"

subsection \<open>What the quotation emitter does not read\<close>

text \<open>
  The properties of a product and of the company block that \<open>buildQuotation\<close> never
  reads: unit price and line total; the contact, telephone, fax, e-mail and address of
  party A, and the contact of party B. \<open>redact_quotation\<close> removes them, so two
  quotations differ in these properties only when their redactions are equal.
\<close>

definition ignored_product_keys :: "jstring list" where
  "ignored_product_keys = [k_unit_price, k_line_total]"

definition ignored_company_keys :: "jstring list" where
  "ignored_company_keys =
     [ascii ''contact_a'', ascii ''tel_a'', ascii ''fax_a'', ascii ''email_a'',
      ascii ''address_a'', ascii ''contact_b'']"

definition drop_keys :: "jstring list \<Rightarrow> jsval \<Rightarrow> jsval" where
  "drop_keys ks v =
     (case v of JObj kvs \<Rightarrow> JObj (filter (\<lambda>kv. fst kv \<notin> set ks) kvs) | _ \<Rightarrow> v)"

definition redact_field :: "jstring \<Rightarrow> jsval \<Rightarrow> jsval" where
  "redact_field k v =
     (if k = k_products then
        (case v of JArr ps \<Rightarrow> JArr (map (drop_keys ignored_product_keys) ps) | _ \<Rightarrow> v)
      else if k = k_company_info then drop_keys ignored_company_keys v
      else v)"

definition redact_quotation :: "jsval \<Rightarrow> jsval" where
  "redact_quotation q =
     (case q of JObj kvs \<Rightarrow> JObj (map (\<lambda>kv. (fst kv, redact_field (fst kv) (snd kv))) kvs)
              | _ \<Rightarrow> q)"

subsection \<open>A row without an image\<close>


definition plain_product_row :: "(jstring \<times> jsval) list \<Rightarrow> sheet \<Rightarrow> sheet" where
  "plain_product_row pkvs sh =
     (fst sh @ [AddRow (Suc (snd sh))
                  [own_prop pkvs k_seq, own_prop pkvs k_part_image, own_prop pkvs k_part_name,
                   own_prop pkvs k_surface, own_prop pkvs k_material, own_prop pkvs k_quantity,
                   JStr [], JStr [], own_prop pkvs k_notes],
                SetHeight (Suc (snd sh)) (JNum 18)],
      Suc (snd sh))"


section \<open>The tabular normalizer (parseExcelToText)\<close>

text \<open>
  White space as \<open>String.prototype.trim\<close> and the regular-expression class \<open>\s\<close> see
  it: the white-space characters and the line terminators of the language.
\<close>

definition is_space :: "nat \<Rightarrow> bool" where
  "is_space c =
     (c = 9 \<or> c = 10 \<or> c = 11 \<or> c = 12 \<or> c = 13 \<or> c = 32 \<or> c = 160 \<or> c = 5760
      \<or> (8192 \<le> c \<and> c \<le> 8202) \<or> c = 8232 \<or> c = 8233 \<or> c = 8239 \<or> c = 8287
      \<or> c = 12288 \<or> c = 65279)"

definition trim :: "jstring \<Rightarrow> jstring" where
  "trim s = rev (dropWhile is_space (rev (dropWhile is_space s)))"

text \<open>
  The value of a cell, as the spreadsheet library types it: nothing (\<open>null\<close> or
  \<open>undefined\<close>), a string, another primitive (a number or a boolean, given by the text
  \<open>String\<close> makes of it), or an object. Of an object the code asks, in this order,
  whether it has a \<open>text\<close>, a \<open>result\<close> (given by its \<open>String\<close>), \<open>richText\<close> (the
  texts of its runs) or a \<open>formula\<close>; any other object is given by its
  \<open>JSON.stringify\<close>.
\<close>

datatype cell_value =
    CNull
  | CStr jstring
  | CPrim jstring
  | CText jstring
  | CResult jstring
  | CRichText "jstring list"
  | CFormula jstring
  | COther jstring

text \<open>\<open>cell.value !== null && cell.value !== undefined && cell.value !== ''\<close>\<close>

definition has_value :: "cell_value \<Rightarrow> bool" where
  "has_value v = (v \<noteq> CNull \<and> v \<noteq> CStr [])"

text \<open>The text \<open>cellValue\<close> that the code computes for a cell that has a value.\<close>

fun cell_text :: "cell_value \<Rightarrow> jstring" where
  "cell_text CNull = []"
| "cell_text (CStr s) = s"
| "cell_text (CPrim s) = s"
| "cell_text (CText s) = s"
| "cell_text (CResult s) = s"
| "cell_text (CRichText runs) = concat runs"
| "cell_text (CFormula f) = ascii ''FORMULA: '' @ f"
| "cell_text (COther j) = j"

record worksheet =
  ws_name :: jstring
  ws_cell :: "nat \<Rightarrow> nat \<Rightarrow> cell_value"
  ws_merges :: "jstring list"

definition maxRow :: nat where "maxRow = 200"
definition maxCol :: nat where "maxCol = 50"

text \<open>
  The main loop over the columns of row \<open>r\<close>: the cells (row, column, trimmed text) that
  have a value whose text is not blank.
\<close>

definition scan_row :: "(nat \<Rightarrow> nat \<Rightarrow> cell_value) \<Rightarrow> nat \<Rightarrow> (nat \<times> nat \<times> jstring) list" where
  "scan_row cell r =
     concat (map (\<lambda>c. if has_value (cell r c) \<and> trim (cell_text (cell r c)) \<noteq> []
                        then [(r, c, trim (cell_text (cell r c)))] else [])
                 [1 ..< Suc maxCol])"

text \<open>
  The look-ahead over the columns \<open>cs\<close> of a row: it reads cell after cell and breaks at
  the first that has a value. The result says whether one was found, and lists the cells
  read.
\<close>

fun check_row :: "(nat \<Rightarrow> nat \<Rightarrow> cell_value) \<Rightarrow> nat \<Rightarrow> nat list \<Rightarrow> bool \<times> (nat \<times> nat) list" where
  "check_row cell r [] = (False, [])"
| "check_row cell r (c # cs) =
     (if has_value (cell r c) then (True, [(r, c)])
      else (fst (check_row cell r cs), (r, c) # snd (check_row cell r cs)))"

text \<open>
  The look-ahead over the rows \<open>rs\<close>: it counts rows without a value and breaks at the
  first row that has one. The result is \<open>emptyRowCount\<close> and the cells read.
\<close>

fun count_empty :: "(nat \<Rightarrow> nat \<Rightarrow> cell_value) \<Rightarrow> nat list \<Rightarrow> nat \<times> (nat \<times> nat) list" where
  "count_empty cell [] = (0, [])"
| "count_empty cell (r # rs) =
     (let chk = check_row cell r [1 ..< Suc maxCol]
      in if fst chk then (0, snd chk)
         else (Suc (fst (count_empty cell rs)), snd chk @ snd (count_empty cell rs)))"

text \<open>
  \<open>for (checkRow = rowNum + 1; checkRow <= rowNum + 10 && checkRow <= maxRow; checkRow++)\<close>
\<close>

definition lookahead_rows :: "nat \<Rightarrow> nat list" where
  "lookahead_rows rowNum = [Suc rowNum ..< Suc (min (rowNum + 10) maxRow)]"

text \<open>
  The main loop over the rows \<open>rs\<close> that are still to scan, with \<open>hasAnyData\<close> so far.
  The result lists the rows scanned, each with the cells found in it, and the cells read.
\<close>

fun scan_rows :: "(nat \<Rightarrow> nat \<Rightarrow> cell_value) \<Rightarrow> bool \<Rightarrow> nat list \<Rightarrow> (nat \<times> (nat \<times> nat \<times> jstring) list) list \<times> (nat \<times> nat) list" where
  "scan_rows cell hasAnyData [] = ([], [])"
| "scan_rows cell hasAnyData (r # rs) =
     (let found = scan_row cell r;
          reads = map (Pair r) [1 ..< Suc maxCol];
          hasRowData = (found \<noteq> []);
          hasAny = (hasAnyData \<or> hasRowData)
      in if hasAny \<and> \<not> hasRowData then
           (let look = count_empty cell (lookahead_rows r)
            in if fst look \<ge> 10 then ([(r, found)], reads @ snd look)
               else ((r, found) # fst (scan_rows cell hasAny rs),
                     reads @ snd look @ snd (scan_rows cell hasAny rs)))
         else ((r, found) # fst (scan_rows cell hasAny rs),
               reads @ snd (scan_rows cell hasAny rs)))"

definition scan_sheet :: "worksheet \<Rightarrow> (nat \<times> (nat \<times> nat \<times> jstring) list) list \<times> (nat \<times> nat) list" where
  "scan_sheet ws = scan_rows (ws_cell ws) False [1 ..< Suc maxRow]"

text \<open>The address of a cell: the letters of its column, the number of its row.\<close>

fun col_letters :: "nat \<Rightarrow> jstring" where
  "col_letters n =
     (if n \<le> 26 then [64 + n] else col_letters ((n - 1) div 26) @ [65 + (n - 1) mod 26])"

declare col_letters.simps [simp del]

definition cell_address :: "nat \<Rightarrow> nat \<Rightarrow> jstring" where
  "cell_address r c = col_letters c @ digits r"

text \<open>The line of a row that has data: \<open>Row n: [A1: "text"] ...\<close> and a newline.\<close>

definition row_line :: "nat \<times> (nat \<times> nat \<times> jstring) list \<Rightarrow> jstring" where
  "row_line rf =
     (if snd rf = [] then []
      else ascii ''Row '' @ digits (fst rf) @ ascii '': ''
           @ concat (map (\<lambda>(r, c, t). [91] @ cell_address r c @ [58, 32, 34] @ t @ [34, 93, 32])
                         (snd rf))
           @ [10])"

definition sheet_text :: "worksheet \<Rightarrow> jstring" where
  "sheet_text ws =
     (let rows = fst (scan_sheet ws)
      in ascii ''SHEET: '' @ ws_name ws @ [10]
         @ [61] @ replicate (length (ws_name ws) + 6) 61 @ [10, 10]
         @ concat (map row_line rows)
         @ (if concat (map snd rows) = [] then
              ascii ''No data found in sheet (scanned up to row '' @ digits maxRow
              @ ascii '', col '' @ digits maxCol @ [41, 10, 10]
            else [])
         @ (if ws_merges ws \<noteq> [] then
              [10] @ ascii ''Merged Cells:'' @ [10]
              @ concat (map (\<lambda>m. [32, 32] @ m @ [10]) (ws_merges ws))
            else [])
         @ [10] @ replicate 50 45 @ [10, 10])"

definition parseExcelToText :: "worksheet list \<Rightarrow> jstring" where
  "parseExcelToText sheets =
     ascii ''=== EXCEL FILE CONTENT ==='' @ [10, 10] @ concat (map sheet_text sheets)"

subsection \<open>When the scan of a sheet stops\<close>

text \<open>
  A row is blank for the look-ahead when none of its cells in the columns 1 to 50 has a
  value. The scan stops at row \<open>r\<close> when data has been seen in the rows up to \<open>r\<close>,
  row \<open>r\<close> itself gives no data, the ten rows after \<open>r\<close> are within the 200 rows, and
  they are all blank.
\<close>

definition blank_row :: "(nat \<Rightarrow> nat \<Rightarrow> cell_value) \<Rightarrow> nat \<Rightarrow> bool" where
  "blank_row cell r = (\<forall>c \<in> {1..maxCol}. \<not> has_value (cell r c))"

definition stop_here :: "(nat \<Rightarrow> nat \<Rightarrow> cell_value) \<Rightarrow> nat \<Rightarrow> bool" where
  "stop_here cell r =
     ((\<exists>r' \<in> {1..r}. scan_row cell r' \<noteq> []) \<and> scan_row cell r = []
      \<and> r + 10 \<le> maxRow \<and> (\<forall>k \<in> {r + 1..r + 10}. blank_row cell k))"

section \<open>The structure extractor (extractStructures)\<close>

text \<open>
  \<open>txt.replace(/```(?:javascript|js|python)?|```/g, '')\<close>: every run of three back-ticks
  goes, together with the language tag that follows it, the alternatives tried in the
  order of the pattern.
\<close>

fun strip_fences :: "jstring \<Rightarrow> jstring" where
  "strip_fences [] = []"
| "strip_fences (c # cs) =
     (if prefix [96, 96, 96] (c # cs) then
        (if prefix (ascii ''javascript'') (drop 2 cs) then strip_fences (drop 12 cs)
         else if prefix (ascii ''js'') (drop 2 cs) then strip_fences (drop 4 cs)
         else if prefix (ascii ''python'') (drop 2 cs) then strip_fences (drop 8 cs)
         else strip_fences (drop 2 cs))
      else c # strip_fences cs)"

text \<open>
  A match of \<open>const\s+NAME\s*=\s*OPEN\<close> at the very start of \<open>s\<close>: what follows the
  opening bracket. Each run of white space is taken whole, since the character after it in
  the pattern is no white space.
\<close>

definition match_head :: "jstring \<Rightarrow> nat \<Rightarrow> jstring \<Rightarrow> jstring option" where
  "match_head name opn s =
     (if prefix (ascii ''const'') s then
        (let s1 = drop 5 s
         in if s1 \<noteq> [] \<and> is_space (hd s1) then
              (let s2 = dropWhile is_space s1
               in if prefix name s2 then
                    (case dropWhile is_space (drop (length name) s2) of
                       e # s4 \<Rightarrow>
                         if e = 61 then
                           (case dropWhile is_space s4 of
                              b # s5 \<Rightarrow> if b = opn then Some s5 else None
                            | [] \<Rightarrow> None)
                         else None
                     | [] \<Rightarrow> None)
                  else None)
            else None)
      else None)"

text \<open>
  \<open>[\s\S]*?\<close> followed by the closing bracket and a semicolon: the shortest text after
  which the two stand.
\<close>

fun find_close :: "nat \<Rightarrow> jstring \<Rightarrow> jstring option" where
  "find_close cl [] = None"
| "find_close cl (c # cs) =
     (if prefix [cl, 59] (c # cs) then Some []
      else map_option ((#) c) (find_close cl cs))"

text \<open>The first capture group of a match at the start of \<open>s\<close>: bracket, body, bracket.\<close>

definition match_at :: "jstring \<Rightarrow> nat \<Rightarrow> nat \<Rightarrow> jstring \<Rightarrow> jstring option" where
  "match_at name opn cl s =
     (case match_head name opn s of
        None \<Rightarrow> None
      | Some rest \<Rightarrow> map_option (\<lambda>body. opn # body @ [cl]) (find_close cl rest))"

text \<open>\<open>txt.match(re)\<close>: the match at the leftmost position that has one.\<close>

fun search :: "(jstring \<Rightarrow> 'a option) \<Rightarrow> jstring \<Rightarrow> 'a option" where
  "search m [] = m []"
| "search m (c # cs) = (case m (c # cs) of Some r \<Rightarrow> Some r | None \<Rightarrow> search m cs)"

definition excelLayoutData :: jstring where "excelLayoutData = ascii ''excelLayoutData''"
definition quotationData :: jstring where "quotationData = ascii ''quotationData''"

subsection \<open>The repair pass (clean)\<close>

definition is_line_terminator :: "nat \<Rightarrow> bool" where
  "is_line_terminator c = (c = 10 \<or> c = 13 \<or> c = 8232 \<or> c = 8233)"

text \<open>\<open>.replace(/\/\/.*$/gm, '')\<close>: two slashes and the rest of their line go.\<close>

function strip_comments :: "jstring \<Rightarrow> jstring" where
  "strip_comments [] = []"
| "strip_comments (c # cs) =
     (if prefix [47, 47] (c # cs)
      then strip_comments (dropWhile (\<lambda>x. \<not> is_line_terminator x) (drop 1 cs))
      else c # strip_comments cs)"
  by pat_completeness auto
termination
proof (relation "measure length")
  fix c :: nat and cs :: jstring
  have "length (dropWhile (\<lambda>x. \<not> is_line_terminator x) (drop 1 cs)) \<le> length (drop 1 cs)"
    by (rule length_dropWhile_le)
  then show "(dropWhile (\<lambda>x. \<not> is_line_terminator x) (drop 1 cs), c # cs) \<in> measure length"
    by simp
qed simp_all

text \<open>\<open>.replace(/'/g, '"')\<close>\<close>

definition double_quotes :: "jstring \<Rightarrow> jstring" where
  "double_quotes s = map (\<lambda>c. if c = 39 then 34 else c) s"

text \<open>
  \<open>.replace(/,\s*([\]}])/g, '$1')\<close>: a comma, the white space after it and a closing
  bracket are replaced by the bracket.
\<close>

function strip_trailing_commas :: "jstring \<Rightarrow> jstring" where
  "strip_trailing_commas [] = []"
| "strip_trailing_commas (c # cs) =
     (if c = 44 then
        (case dropWhile is_space cs of
           d # ds \<Rightarrow>
             if d = 93 \<or> d = 125 then d # strip_trailing_commas ds
             else c # strip_trailing_commas cs
         | [] \<Rightarrow> c # strip_trailing_commas cs)
      else c # strip_trailing_commas cs)"
  by pat_completeness auto
termination
proof (relation "measure length")
  fix c d :: nat and cs ds :: jstring
  assume "dropWhile is_space cs = d # ds"
  then have "length (d # ds) \<le> length cs"
    by (metis length_dropWhile_le)
  then show "(ds, c # cs) \<in> measure length"
    by simp
qed simp_all

text \<open>\<open>.replace(/[;`]/g, '')\<close>\<close>

definition strip_terminators :: "jstring \<Rightarrow> jstring" where
  "strip_terminators s = filter (\<lambda>c. c \<noteq> 59 \<and> c \<noteq> 96) s"

definition clean :: "jstring \<Rightarrow> jstring" where
  "clean jsStr = trim (strip_terminators (strip_trailing_commas (double_quotes (strip_comments jsStr))))"

definition extractStructures :: "jstring \<Rightarrow> error + jstring \<times> jstring" where
  "extractStructures txt =
     (let t = strip_fences txt;
          arrMatch = search (match_at excelLayoutData 91 93) t;
          objMatch = search (match_at quotationData 123 125) t
      in case (arrMatch, objMatch) of
           (Some a, Some b) \<Rightarrow> Inr (clean a, clean b)
         | _ \<Rightarrow> Inl ExtractError)"

subsection \<open>What "the text contains the literal" means\<close>


text \<open>
  The patterns that the repair pass rewrites: a comma followed by white space and a closing
  bracket.
\<close>

fun has_trailing_comma :: "jstring \<Rightarrow> bool" where
  "has_trailing_comma [] = False"
| "has_trailing_comma (c # cs) =
     ((c = 44 \<and> (case dropWhile is_space cs of d # ds \<Rightarrow> d = 93 \<or> d = 125 | [] \<Rightarrow> False))
      \<or> has_trailing_comma cs)"

text \<open>\<open>occurs p s\<close>: the text \<open>p\<close> stands somewhere in \<open>s\<close>.\<close>

fun occurs :: "jstring \<Rightarrow> jstring \<Rightarrow> bool" where
  "occurs p [] = (p = [])"
| "occurs p (c # cs) = (prefix p (c # cs) \<or> occurs p cs)"

text \<open>
  A text that the repair pass has nothing to do with: no \<open>//\<close>, no single quote, no
  comma before a closing bracket, no semicolon, no back-tick, no white space at either
  end.
\<close>

definition needs_no_repair :: "jstring \<Rightarrow> bool" where
  "needs_no_repair s =
     (\<not> occurs [47, 47] s \<and> 39 \<notin> set s \<and> \<not> has_trailing_comma s \<and> 59 \<notin> set s \<and> 96 \<notin> set s
      \<and> (s = [] \<or> (\<not> is_space (hd s) \<and> \<not> is_space (last s))))"

section \<open>JSON.parse\<close>

text \<open>
  \<open>JSON.parse\<close> belongs to the platform; it is modelled after the JSON grammar
  (ECMA-404), in two passes: the text is cut into tokens, the tokens are parsed. A numeral
  with a fraction or an exponent is outside the model (\<open>Unsupported\<close>); every other text
  that is no JSON is a \<open>SyntaxError\<close>.
\<close>

datatype token =
    TLBrack | TRBrack | TLBrace | TRBrace | TComma | TColon
  | TString jstring | TNumber int | TTrue | TFalse | TNull

definition is_digit :: "nat \<Rightarrow> bool" where
  "is_digit c = (48 \<le> c \<and> c \<le> 57)"

definition hex_value :: "nat \<Rightarrow> nat option" where
  "hex_value c =
     (if 48 \<le> c \<and> c \<le> 57 then Some (c - 48)
      else if 97 \<le> c \<and> c \<le> 102 then Some (c - 87)
      else if 65 \<le> c \<and> c \<le> 70 then Some (c - 55)
      else None)"

text \<open>The code unit of \<open>\uXXXX\<close>, from the four characters after the \<open>u\<close>.\<close>

definition hex4 :: "jstring \<Rightarrow> nat option" where
  "hex4 s =
     (case map hex_value s of
        [Some a, Some b, Some c, Some d] \<Rightarrow> Some (4096 * a + 256 * b + 16 * c + d)
      | _ \<Rightarrow> None)"

text \<open>What a backslash and the character \<open>e\<close> stand for.\<close>

definition unescape :: "nat \<Rightarrow> nat option" where
  "unescape e =
     (if e = 34 then Some 34 else if e = 92 then Some 92 else if e = 47 then Some 47
      else if e = 98 then Some 8 else if e = 102 then Some 12 else if e = 110 then Some 10
      else if e = 114 then Some 13 else if e = 116 then Some 9 else None)"

text \<open>
  A string, read from after its opening quote: its content, and how many characters were
  read, the closing quote included.
\<close>

fun lex_string :: "jstring \<Rightarrow> (jstring \<times> nat) option" where
  "lex_string [] = None"
| "lex_string (c # cs) =
     (if c = 34 then Some ([], 1)
      else if c = 92 then
        (case cs of
           [] \<Rightarrow> None
         | e # es \<Rightarrow>
             if e = 117 then
               (case hex4 (take 4 es) of
                  None \<Rightarrow> None
                | Some u \<Rightarrow> map_option (\<lambda>(s, n). (u # s, n + 6)) (lex_string (drop 4 es)))
             else
               (case unescape e of
                  None \<Rightarrow> None
                | Some x \<Rightarrow> map_option (\<lambda>(s, n). (x # s, n + 2)) (lex_string es)))
      else if c < 32 then None
      else map_option (\<lambda>(s, n). (c # s, n + 1)) (lex_string cs))"

definition digits_value :: "jstring \<Rightarrow> int" where
  "digits_value ds = foldl (\<lambda>a d. 10 * a + int (d - 48)) 0 ds"

text \<open>
  An integer numeral at the start of \<open>s\<close>: an optional minus sign, then a single 0 or a
  digit from 1 to 9 with the digits after it. The result is its value and its length.
  \<open>JSON.parse\<close> gives the double nearest to the numeral: up to \<open>2^53 - 1\<close> that is
  the integer itself, and a larger numeral is outside the model, as one with a fraction or
  an exponent is.
\<close>

definition lex_number :: "jstring \<Rightarrow> error + int \<times> nat" where
  "lex_number s =
     (let neg = prefix [45] s;
          t = (if neg then drop 1 s else s);
          ds = (if prefix [48] t then [48] else takeWhile is_digit t);
          rest = drop (length ds) t
      in if ds = [] then Inl SyntaxError
         else if prefix [46] rest \<or> prefix [101] rest \<or> prefix [69] rest then Inl Unsupported
         else if max_safe_integer < digits_value ds then Inl Unsupported
         else Inr (if neg then - digits_value ds else digits_value ds,
                   length ds + (if neg then 1 else 0)))"

fun lex :: "jstring \<Rightarrow> error + token list" where
  "lex [] = Inr []"
| "lex (c # cs) =
     (if c = 32 \<or> c = 9 \<or> c = 10 \<or> c = 13 then lex cs
      else if c = 91 then ebind (lex cs) (\<lambda>ts. Inr (TLBrack # ts))
      else if c = 93 then ebind (lex cs) (\<lambda>ts. Inr (TRBrack # ts))
      else if c = 123 then ebind (lex cs) (\<lambda>ts. Inr (TLBrace # ts))
      else if c = 125 then ebind (lex cs) (\<lambda>ts. Inr (TRBrace # ts))
      else if c = 44 then ebind (lex cs) (\<lambda>ts. Inr (TComma # ts))
      else if c = 58 then ebind (lex cs) (\<lambda>ts. Inr (TColon # ts))
      else if c = 34 then
        (case lex_string cs of
           None \<Rightarrow> Inl SyntaxError
         | Some (s, n) \<Rightarrow> ebind (lex (drop n cs)) (\<lambda>ts. Inr (TString s # ts)))
      else if c = 45 \<or> is_digit c then
        (case lex_number (c # cs) of
           Inl e \<Rightarrow> Inl e
         | Inr (v, n) \<Rightarrow> ebind (lex (drop (n - 1) cs)) (\<lambda>ts. Inr (TNumber v # ts)))
      else if prefix (ascii ''true'') (c # cs) then
        ebind (lex (drop 3 cs)) (\<lambda>ts. Inr (TTrue # ts))
      else if prefix (ascii ''false'') (c # cs) then
        ebind (lex (drop 4 cs)) (\<lambda>ts. Inr (TFalse # ts))
      else if prefix (ascii ''null'') (c # cs) then
        ebind (lex (drop 3 cs)) (\<lambda>ts. Inr (TNull # ts))
      else Inl SyntaxError)"

text \<open>
  The parser keeps the arrays and objects it is inside of: an array with the elements read
  so far (last first), an object with the properties read so far and the key whose value
  is being read. A key that comes again replaces the value of the earlier one.
\<close>

datatype frame = InArr "jsval list" | InObj "(jstring \<times> jsval) list" jstring

text \<open>The value that a token is by itself, if it is one.\<close>

fun scalar :: "token \<Rightarrow> jsval option" where
  "scalar (TString s) = Some (JStr s)"
| "scalar (TNumber n) = Some (JNum n)"
| "scalar TTrue = Some (JBool True)"
| "scalar TFalse = Some (JBool False)"
| "scalar TNull = Some JNull"
| "scalar t = None"

text \<open>
  \<open>parse_value\<close> expects a value; \<open>parse_after\<close> has just read the value \<open>v\<close> and
  expects what may follow it.
\<close>

fun parse_value :: "frame list \<Rightarrow> token list \<Rightarrow> error + jsval"
  and parse_after :: "frame list \<Rightarrow> jsval \<Rightarrow> token list \<Rightarrow> error + jsval" where
  "parse_value st [] = Inl SyntaxError"
| "parse_value st (t # ts) =
     (case scalar t of
        Some v \<Rightarrow> parse_after st v ts
      | None \<Rightarrow>
          if t = TLBrack then
            (if prefix [TRBrack] ts then parse_after st (JArr []) (drop 1 ts)
             else parse_value (InArr [] # st) ts)
          else if t = TLBrace then
            (case ts of
               TRBrace # ts1 \<Rightarrow> parse_after st (JObj []) ts1
             | TString k # ts1 \<Rightarrow>
                 if prefix [TColon] ts1 then parse_value (InObj [] k # st) (drop 1 ts1)
                 else Inl SyntaxError
             | _ \<Rightarrow> Inl SyntaxError)
          else Inl SyntaxError)"
| "parse_after [] v ts = (if ts = [] then Inr v else Inl SyntaxError)"
| "parse_after (InArr acc # st) v ts =
     (case ts of
        TComma # ts1 \<Rightarrow> parse_value (InArr (v # acc) # st) ts1
      | TRBrack # ts1 \<Rightarrow> parse_after st (JArr (rev (v # acc))) ts1
      | _ \<Rightarrow> Inl SyntaxError)"
| "parse_after (InObj acc k # st) v ts =
     (case ts of
        TComma # TString k' # TColon # ts1 \<Rightarrow>
          parse_value (InObj (AList.update k v acc) k' # st) ts1
      | TRBrace # ts1 \<Rightarrow> parse_after st (JObj (AList.update k v acc)) ts1
      | _ \<Rightarrow> Inl SyntaxError)"

definition JSON_parse :: "jstring \<Rightarrow> error + jsval" where
  "JSON_parse s = ebind (lex s) (\<lambda>ts. parse_value [] ts)"

section \<open>The POST handler, from the model's answer on\<close>







subsection \<open>Layout rows by their kind\<close>




section \<open>Sample inputs\<close>

text \<open>Concrete inputs on which the theorems below are instantiated.\<close>

definition demo_uploads :: "upload list" where
  "demo_uploads = [\<lparr>u_name = ascii ''P100-rev2.png'', u_bytes = []\<rparr>,
                   \<lparr>u_name = ascii ''p200.png'', u_bytes = []\<rparr>,
                   \<lparr>u_name = ascii ''300.png'', u_bytes = []\<rparr>]"

definition demo_dir :: jstring where
  "demo_dir = ascii ''/tmp/nextjs-xlsx-uploads/1-abc''"

definition demo_info :: "stp_file list" where
  "demo_info = [\<lparr>f_path = demo_dir @ ascii ''/P100-rev2.png'', f_name = ascii ''P100-rev2.png''\<rparr>,
                \<lparr>f_path = demo_dir @ ascii ''/p200.png'', f_name = ascii ''p200.png''\<rparr>,
                \<lparr>f_path = demo_dir @ ascii ''/300.png'', f_name = ascii ''300.png''\<rparr>]"

definition demo_row :: "jsval list \<Rightarrow> jsval" where
  "demo_row d = JObj [(k_type, JStr main_table_data_row), (k_data, JArr d), (ascii ''height'', JNum 22)]"

definition demo_product :: "jsval \<Rightarrow> jsval \<Rightarrow> jsval" where
  "demo_product img name = JObj [(k_part_image, img), (k_part_name, name)]"

definition demo_url :: "jstring option" where "demo_url = Some (ascii ''http://localhost:5050/render'')"

definition demo_zip :: rendered where
  "demo_zip = Zip [(ascii ''out/'', True, Some []), (ascii ''notes.txt'', False, Some [1]),
                   (ascii ''out/view.PNG'', False, Some [137, 80, 78, 71])]"


definition demo_images :: image_map where
  "demo_images = [ascii ''a.png'' \<mapsto> [137, 80, 78, 71]]"

definition no_rejects :: "ws_op list \<Rightarrow> ws_op \<Rightarrow> bool" where
  "no_rejects ops op = False"

definition demo_company :: "jsval \<Rightarrow> jsval \<Rightarrow> jsval" where
  "demo_company contact_a contact_b =
     JObj [(k_party_a, JStr (ascii ''A Ltd'')), (ascii ''contact_a'', contact_a),
           (k_party_b, JStr (ascii ''B Ltd'')), (ascii ''contact_b'', contact_b),
           (k_tel_b, JStr (ascii ''13777479066''))]"

definition demo_quotation :: "jsval \<Rightarrow> jsval \<Rightarrow> jsval \<Rightarrow> jsval" where
  "demo_quotation price contact_a contact_b =
     JObj [(k_quote_number, JStr (ascii ''Q-1'')),
           (k_company_info, demo_company contact_a contact_b),
           (k_products, JArr [JObj [(k_seq, JNum 1), (k_part_image, JStr (ascii ''a.png'')),
                                    (k_part_name, JStr (ascii ''P1'')),
                                    (k_unit_price, price), (k_line_total, price)]])]"

text \<open>
  A sheet with data in A1 and A12 only: the rows 2 to 11 are ten consecutive rows without
  any value.
\<close>

definition demo_cells :: "nat \<Rightarrow> nat \<Rightarrow> cell_value" where
  "demo_cells r c =
     (if c = 1 \<and> r = 1 then CStr (ascii ''x'')
      else if c = 1 \<and> r = 12 then CStr (ascii ''y'')
      else CNull)"

definition demo_sheet :: worksheet where
  "demo_sheet = \<lparr>ws_name = ascii ''Sheet1'', ws_cell = demo_cells, ws_merges = []\<rparr>"



section \<open>Basic facts\<close>

lemma ebind_simps [simp]: "ebind (Inl e) f = Inl e" "ebind (Inr x) f = f x"
  by (simp_all add: ebind_def)

lemmas key_defs = k_type_def k_data_def k_length_def k_products_def k_part_name_def
  k_part_image_def k_merge_cells_def k_text_def k_cells_def k_col_letter_def k_value_def
  k_headers_def k_height_def k_quote_number_def k_company_info_def k_party_a_def k_party_b_def
  k_tel_b_def k_fax_b_def k_email_b_def k_address_b_def k_payment_terms_def
  k_acceptance_standard_def k_notice_def k_signature_date_def k_seq_def k_surface_def
  k_material_def k_quantity_def k_unit_price_def k_line_total_def k_notes_def
  main_table_data_row_def main_table_header_row_def title_row_def header_detail_row_def

text \<open>Decimal numerals of literals are computed by the simplifier.\<close>

lemma digits_numeral [simp]:
  "digits (numeral k) =
     (if numeral k < (10::nat) then [48 + numeral k]
      else digits (numeral k div 10) @ [48 + numeral k mod 10])"
  by (rule digits.simps)

lemma digits_small [simp]: "digits 0 = [48]" "digits 1 = [49]" "digits (Suc 0) = [49]"
  by (simp_all add: digits.simps)

lemma platform_lower_ascii: "platform_lower lower_ascii"
  by (simp add: platform_lower_def lower_ascii_def)

lemma platform_lower_empty: "platform_lower lc \<Longrightarrow> (lc s = []) = (s = [])"
  by (simp add: platform_lower_def)

lemma platform_lower_on_ascii:
  "platform_lower lc \<Longrightarrow> list_all (\<lambda>c. c < 128) s \<Longrightarrow> lc s = map lower_unit s"
  by (simp add: platform_lower_def)

lemma ascii_eq_Nil [simp]: "(ascii s = []) = (s = [])"
  by (simp add: ascii_def)

section \<open>Properties of the reconciliation step\<close>


lemma path_join_dir: "path_join dir name = dir \<longleftrightarrow> name = []"
  by (simp add: path_join_def)

text \<open>
  The files of \<open>stpInfo\<close> are the uploads, in their order, and each has a name: a file
  without one could not be saved.
\<close>

lemma save_uploads_names:
  "save_uploads w dir ups = Inr info \<Longrightarrow>
     map f_name info = map u_name ups \<and> [] \<notin> f_name ` set info"
proof (induction ups arbitrary: info)
  case Nil
  then show ?case by simp
next
  case (Cons sf rest)
  then show ?case
    by (auto simp: Let_def path_join_dir ebind_def split: if_splits sum.splits)
qed

lemma stpNames_uploads:
  "save_uploads w dir ups = Inr info \<Longrightarrow> stpNames lc info = map (\<lambda>u. lc (u_name u)) ups"
proof -
  assume "save_uploads w dir ups = Inr info"
  then have "map f_name info = map u_name ups" by (simp add: save_uploads_names)
  then have "map lc (map f_name info) = map lc (map u_name ups)" by simp
  then show ?thesis by (simp add: stpNames_def comp_def)
qed

lemma stpNames_nonempty:
  "platform_lower lc \<Longrightarrow> save_uploads w dir ups = Inr info \<Longrightarrow> [] \<notin> set (stpNames lc info)"
proof
  assume lower: "platform_lower lc" and saved: "save_uploads w dir ups = Inr info"
    and "[] \<in> set (stpNames lc info)"
  then obtain f where f: "f \<in> set info" and "lc (f_name f) = []"
    by (auto simp: stpNames_def)
  with lower have "f_name f = []" by (simp add: platform_lower_empty)
  with f have "[] \<in> f_name ` set info" by force
  with save_uploads_names [OF saved] show False by simp
qed

lemma find_in_set: "find P xs = Some x \<Longrightarrow> x \<in> set xs"
  by (induction xs) (auto split: if_splits)

lemma find_match_find:
  "[] \<notin> set names \<Longrightarrow> find_match names p = find (\<lambda>n. startsWith n p) names"
  by (auto simp: find_match_def dest: find_in_set split: option.splits)

lemma key_facts [simp]:
  "k_type \<noteq> k_data" "k_data \<noteq> k_type" "k_length = ascii ''length''"
  "k_part_name \<noteq> k_part_image" "k_part_image \<noteq> k_part_name"
  by (simp_all add: k_type_def k_data_def k_length_def ascii_def k_part_name_def
      k_part_image_def)

lemma reconcile_item_row:
  assumes "[] \<notin> set names"
      and "map_of kvs k_type = Some (JStr main_table_data_row)"
      and "map_of kvs k_data = Some (JArr d)"
      and "2 < length d"
  shows "reconcile_item lc names (JObj kvs) =
         Inr (case find (\<lambda>n. startsWith n (lc (js_String (js_or (d ! 2) (JStr []))))) names of
                None \<Rightarrow> JObj kvs
              | Some m \<Rightarrow> JObj (AList.update k_data (JArr (d[1 := JStr m])) kvs))"
  using assms
  by (simp add: reconcile_item_def find_match_find split: option.splits)

lemma reconcile_product_row:
  assumes "[] \<notin> set names"
  shows "reconcile_product lc names (JObj kvs) =
         Inr (case find (\<lambda>n. startsWith n (lc (js_String
                       (js_or (case map_of kvs k_part_name of Some v \<Rightarrow> v | None \<Rightarrow> JUndefined)
                              (JStr []))))) names of
                None \<Rightarrow> JObj kvs
              | Some m \<Rightarrow> JObj (AList.update k_part_image (JStr m) kvs))"
  using assms
  by (simp add: reconcile_product_def find_match_find split: option.splits)

lemma reconcile_item_short:
  assumes "map_of kvs k_data = Some (JArr d)" and "length d \<le> 2"
  shows "reconcile_item lc names (JObj kvs) = Inr (JObj kvs)"
  using assms by (simp add: reconcile_item_def)

text \<open>
  A loop whose body may throw ends normally exactly when the body does on every element,
  and then element \<open>i\<close> of the result is the body's result on element \<open>i\<close>.
\<close>

lemma map_err_all2:
  "map_err f xs = Inr ys \<longleftrightarrow> list_all2 (\<lambda>x y. f x = Inr y) xs ys"
proof (induction xs arbitrary: ys)
  case Nil
  then show ?case by auto
next
  case (Cons x xs)
  show ?case
  proof (cases ys)
    case Nil
    then show ?thesis by (auto simp: ebind_def split: sum.splits)
  next
    case (Cons y ys')
    with Cons.IH [of ys'] show ?thesis by (auto simp: ebind_def split: sum.splits)
  qed
qed

lemma map_err_nth:
  "map_err f xs = Inr ys \<longleftrightarrow>
     length ys = length xs \<and> (\<forall>i < length xs. f (xs ! i) = Inr (ys ! i))"
  by (auto simp: map_err_all2 list_all2_conv_all_nth)

lemma map_err_map:
  "(\<And>x. x \<in> set xs \<Longrightarrow> f x = Inr (g x)) \<Longrightarrow> map_err f xs = Inr (map g xs)"
  by (induction xs) simp_all

lemma map_err_comp: "map_err f (map g xs) = map_err (\<lambda>x. f (g x)) xs"
  by (induction xs) simp_all

lemma reconcile_quotation_products:
  assumes "map_of qkvs k_products = Some (JArr ps)"
  shows "reconcile_quotation lc names (JObj qkvs) = Inr q' \<longleftrightarrow>
         (\<exists>ps'. q' = JObj (AList.update k_products (JArr ps') qkvs)
              \<and> length ps' = length ps
              \<and> (\<forall>i < length ps. reconcile_product lc names (ps ! i) = Inr (ps' ! i)))"
proof
  assume "reconcile_quotation lc names (JObj qkvs) = Inr q'"
  with assms obtain ps' where
    m: "map_err (reconcile_product lc names) ps = Inr ps'"
    and q': "q' = JObj (AList.update k_products (JArr ps') qkvs)"
    by (auto simp: reconcile_quotation_def ebind_def split: sum.splits)
  from m have "length ps' = length ps
      \<and> (\<forall>i < length ps. reconcile_product lc names (ps ! i) = Inr (ps' ! i))"
    by (simp add: map_err_nth)
  with q' show "\<exists>ps'. q' = JObj (AList.update k_products (JArr ps') qkvs)
              \<and> length ps' = length ps
              \<and> (\<forall>i < length ps. reconcile_product lc names (ps ! i) = Inr (ps' ! i))"
    by blast
next
  assume "\<exists>ps'. q' = JObj (AList.update k_products (JArr ps') qkvs)
              \<and> length ps' = length ps
              \<and> (\<forall>i < length ps. reconcile_product lc names (ps ! i) = Inr (ps' ! i))"
  then obtain ps' where q': "q' = JObj (AList.update k_products (JArr ps') qkvs)"
    and "length ps' = length ps
         \<and> (\<forall>i < length ps. reconcile_product lc names (ps ! i) = Inr (ps' ! i))"
    by blast
  then have "map_err (reconcile_product lc names) ps = Inr ps'"
    by (simp add: map_err_nth)
  with assms q' show "reconcile_quotation lc names (JObj qkvs) = Inr q'"
    by (simp add: reconcile_quotation_def)
qed

lemma demo_saved: "save_uploads (\<lambda>p. True) demo_dir demo_uploads = Inr demo_info"
  by (simp add: demo_uploads_def demo_info_def demo_dir_def path_join_def ascii_def)

lemma demo_names:
  "stpNames lower_ascii demo_info = [ascii ''p100-rev2.png'', ascii ''p200.png'', ascii ''300.png'']"
  by (simp add: demo_info_def stpNames_def lower_ascii_def lower_unit_def ascii_def)

text \<open>
  C1. In the reconciliation step the names of the uploaded CAD files are lower-cased (by
  the platform's case mapping \<open>lc\<close>) and kept in the order of the uploads. For every
  production-order row of type \<open>main_table_data_row\<close> with a part number at data index 2
  and every quotation product, the part number, resp. the part name, is turned into a
  string (a string as it is, a number by its decimal numeral) and lower-cased; when some
  file name starts with it, the first such name is written to the image slot (data index 1,
  resp. the part image property) and nothing else changes; when none does, the row is left
  exactly as extracted. The loop over the layout ends normally exactly when its body does on
  every row, and then row \<open>i\<close> of the layout is the body's result on row \<open>i\<close>; the loop over
  the products of the quotation likewise, and it changes nothing of the quotation but the
  products. For the part \<open>P100\<close> and the names \<open>p100-rev2.png\<close>, \<open>p200.png\<close> the match
  is \<open>p100-rev2.png\<close>.
\<close>

theorem reconcile_prefix_match:
  assumes "platform_lower lc"
      and "save_uploads writable dir uploads = Inr stpInfo"
  shows "stpNames lc stpInfo = map (\<lambda>u. lc (u_name u)) uploads
       \<and> (map_of kvs k_type = Some (JStr main_table_data_row) \<and>
          map_of kvs k_data = Some (JArr d) \<and> 2 < length d \<and> printable (d ! 2) \<longrightarrow>
            reconcile_item lc (stpNames lc stpInfo) (JObj kvs) =
              Inr (case find (\<lambda>n. startsWith n (lc (js_String (js_or (d ! 2) (JStr [])))))
                          (stpNames lc stpInfo) of
                     None \<Rightarrow> JObj kvs
                   | Some m \<Rightarrow> JObj (AList.update k_data (JArr (d[1 := JStr m])) kvs)))
       \<and> (map_of pkvs k_part_name = Some pn \<and> printable pn \<longrightarrow>
            reconcile_product lc (stpNames lc stpInfo) (JObj pkvs) =
              Inr (case find (\<lambda>n. startsWith n (lc (js_String (js_or pn (JStr [])))))
                          (stpNames lc stpInfo) of
                     None \<Rightarrow> JObj pkvs
                   | Some m \<Rightarrow> JObj (AList.update k_part_image (JStr m) pkvs)))
       \<and> (reconcile_layout lc (stpNames lc stpInfo) items = Inr items' \<longleftrightarrow>
            length items' = length items \<and>
            (\<forall>i < length items.
               reconcile_item lc (stpNames lc stpInfo) (items ! i) = Inr (items' ! i)))
       \<and> (map_of qkvs k_products = Some (JArr ps) \<longrightarrow>
            (reconcile_quotation lc (stpNames lc stpInfo) (JObj qkvs) = Inr q' \<longleftrightarrow>
               (\<exists>ps'. q' = JObj (AList.update k_products (JArr ps') qkvs)
                    \<and> length ps' = length ps
                    \<and> (\<forall>i < length ps.
                         reconcile_product lc (stpNames lc stpInfo) (ps ! i) = Inr (ps' ! i)))))
       \<and> find (\<lambda>n. startsWith n (lc (ascii ''P100'')))
               [ascii ''p100-rev2.png'', ascii ''p200.png''] = Some (ascii ''p100-rev2.png'')"
proof -
  have names: "[] \<notin> set (stpNames lc stpInfo)"
    using assms by (rule stpNames_nonempty)
  have ups: "stpNames lc stpInfo = map (\<lambda>u. lc (u_name u)) uploads"
    using assms(2) by (rule stpNames_uploads)
  have row: "reconcile_item lc (stpNames lc stpInfo) (JObj kvs) =
              Inr (case find (\<lambda>n. startsWith n (lc (js_String (js_or (d ! 2) (JStr [])))))
                          (stpNames lc stpInfo) of
                     None \<Rightarrow> JObj kvs
                   | Some m \<Rightarrow> JObj (AList.update k_data (JArr (d[1 := JStr m])) kvs))"
    if "map_of kvs k_type = Some (JStr main_table_data_row)"
      and "map_of kvs k_data = Some (JArr d)" and "2 < length d"
    using reconcile_item_row [OF names that(1,2,3)] .
  have prod: "reconcile_product lc (stpNames lc stpInfo) (JObj pkvs) =
              Inr (case find (\<lambda>n. startsWith n (lc (js_String (js_or pn (JStr [])))))
                          (stpNames lc stpInfo) of
                     None \<Rightarrow> JObj pkvs
                   | Some m \<Rightarrow> JObj (AList.update k_part_image (JStr m) pkvs))"
    if "map_of pkvs k_part_name = Some pn"
    using reconcile_product_row [OF names, of lc pkvs] that by simp
  have loop: "reconcile_layout lc (stpNames lc stpInfo) items = Inr items' \<longleftrightarrow>
            length items' = length items \<and>
            (\<forall>i < length items.
               reconcile_item lc (stpNames lc stpInfo) (items ! i) = Inr (items' ! i))"
    by (simp add: reconcile_layout_def map_err_nth)
  have quot: "reconcile_quotation lc (stpNames lc stpInfo) (JObj qkvs) = Inr q' \<longleftrightarrow>
               (\<exists>ps'. q' = JObj (AList.update k_products (JArr ps') qkvs)
                    \<and> length ps' = length ps
                    \<and> (\<forall>i < length ps.
                         reconcile_product lc (stpNames lc stpInfo) (ps ! i) = Inr (ps' ! i)))"
    if "map_of qkvs k_products = Some (JArr ps)"
    using that by (rule reconcile_quotation_products)
  have "lc (ascii ''P100'') = map lower_unit (ascii ''P100'')"
    using assms(1) by (rule platform_lower_on_ascii) (simp add: ascii_def)
  then have ex: "find (\<lambda>n. startsWith n (lc (ascii ''P100'')))
               [ascii ''p100-rev2.png'', ascii ''p200.png''] = Some (ascii ''p100-rev2.png'')"
    by (simp add: startsWith_def lower_unit_def ascii_def)
  from ups row prod loop quot ex show ?thesis by blast
qed

theorem reconcile_prefix_match_witness:
  "platform_lower lower_ascii
   \<and> save_uploads (\<lambda>p. True) demo_dir demo_uploads = Inr demo_info
   \<and> reconcile_layout lower_ascii (stpNames lower_ascii demo_info)
        [demo_row [JNum 1, JStr (ascii ''[img]''), JStr (ascii ''P100'')],
         demo_row [JNum 2, JStr (ascii ''[img]''), JNum 300],
         demo_row [JNum 3, JStr (ascii ''[img]''), JStr (ascii ''X9'')]]
      = Inr [demo_row [JNum 1, JStr (ascii ''p100-rev2.png''), JStr (ascii ''P100'')],
             demo_row [JNum 2, JStr (ascii ''300.png''), JNum 300],
             demo_row [JNum 3, JStr (ascii ''[img]''), JStr (ascii ''X9'')]]
   \<and> reconcile_quotation lower_ascii (stpNames lower_ascii demo_info)
        (JObj [(k_quote_number, JStr (ascii ''Q-1'')),
               (k_products, JArr [demo_product (JStr (ascii ''[img]'')) (JStr (ascii ''P2'')),
                                  demo_product (JStr (ascii ''[img]'')) (JStr (ascii ''X9''))])])
      = Inr (JObj [(k_quote_number, JStr (ascii ''Q-1'')),
               (k_products, JArr [demo_product (JStr (ascii ''p200.png'')) (JStr (ascii ''P2'')),
                                  demo_product (JStr (ascii ''[img]'')) (JStr (ascii ''X9''))])])"
proof -
  let ?names = "stpNames lower_ascii demo_info"
  let ?img = "JStr (ascii ''[img]'')"
  let ?d1 = "[JNum 1, ?img, JStr (ascii ''P100'')]"
  let ?d2 = "[JNum 2, ?img, JNum 300]"
  let ?d3 = "[JNum 3, ?img, JStr (ascii ''X9'')]"
  let ?kvs = "\<lambda>d. [(k_type, JStr main_table_data_row), (k_data, JArr d), (ascii ''height'', JNum 22)]"
  let ?p1 = "[(k_part_image, ?img), (k_part_name, JStr (ascii ''P2''))]"
  let ?p2 = "[(k_part_image, ?img), (k_part_name, JStr (ascii ''X9''))]"
  let ?p1' = "[(k_part_image, JStr (ascii ''p200.png'')), (k_part_name, JStr (ascii ''P2''))]"
  let ?q = "[(k_quote_number, JStr (ascii ''Q-1'')), (k_products, JArr [JObj ?p1, JObj ?p2])]"
  let ?q' = "[(k_quote_number, JStr (ascii ''Q-1'')), (k_products, JArr [JObj ?p1', JObj ?p2])]"
  let ?items = "[JObj (?kvs ?d1), JObj (?kvs ?d2), JObj (?kvs ?d3)]"
  let ?items' = "[JObj (?kvs [JNum 1, JStr (ascii ''p100-rev2.png''), JStr (ascii ''P100'')]),
                  JObj (?kvs [JNum 2, JStr (ascii ''300.png''), JNum 300]),
                  JObj (?kvs ?d3)]"
  have f1: "find (\<lambda>n. startsWith n (lower_ascii (ascii ''P100''))) ?names
            = Some (ascii ''p100-rev2.png'')"
    by (simp add: demo_names startsWith_def lower_ascii_def lower_unit_def ascii_def)
  have f2: "find (\<lambda>n. startsWith n (lower_ascii (show_int 300))) ?names = Some (ascii ''300.png'')"
    by (simp add: demo_names startsWith_def lower_ascii_def lower_unit_def ascii_def show_int_def)
  have f3: "find (\<lambda>n. startsWith n (lower_ascii (ascii ''X9''))) ?names = None"
    by (simp add: demo_names startsWith_def lower_ascii_def lower_unit_def ascii_def)
  have f4: "find (\<lambda>n. startsWith n (lower_ascii (ascii ''P2''))) ?names = Some (ascii ''p200.png'')"
    by (simp add: demo_names startsWith_def lower_ascii_def lower_unit_def ascii_def)
  have kq: "k_quote_number \<noteq> k_products"
    by (simp add: k_quote_number_def k_products_def ascii_def)
  note inst = reconcile_prefix_match [OF platform_lower_ascii demo_saved]
  note row = inst [THEN conjunct2, THEN conjunct1, rule_format]
  note product = inst [THEN conjunct2, THEN conjunct2, THEN conjunct1, rule_format]
  note layout = inst [THEN conjunct2, THEN conjunct2, THEN conjunct2, THEN conjunct1]
  note quotation = inst [THEN conjunct2, THEN conjunct2, THEN conjunct2, THEN conjunct2,
      THEN conjunct1, rule_format]
  have r1: "reconcile_item lower_ascii ?names (?items ! 0) = Inr (?items' ! 0)"
    using row [of "?kvs ?d1" ?d1] f1 by (simp add: js_or_def)
  have r2: "reconcile_item lower_ascii ?names (?items ! 1) = Inr (?items' ! 1)"
    using row [of "?kvs ?d2" ?d2] f2 by (simp add: js_or_def max_safe_integer_def)
  have r3: "reconcile_item lower_ascii ?names (?items ! 2) = Inr (?items' ! 2)"
    using row [of "?kvs ?d3" ?d3] f3 by (simp add: js_or_def)
  have p1: "reconcile_product lower_ascii ?names (JObj ?p1) = Inr (JObj ?p1')"
    using product [of ?p1 "JStr (ascii ''P2'')"] f4 by (simp add: js_or_def)
  have p2: "reconcile_product lower_ascii ?names (JObj ?p2) = Inr (JObj ?p2)"
    using product [of ?p2 "JStr (ascii ''X9'')"] f3 by (simp add: js_or_def)
  have "\<forall>i < length ?items. reconcile_item lower_ascii ?names (?items ! i) = Inr (?items' ! i)"
    using r1 r2 r3 by (simp add: less_Suc_eq nth_Cons')
  then have l: "reconcile_layout lower_ascii ?names ?items = Inr ?items'"
    by (simp add: layout [of ?items ?items'])
  have "\<forall>i < length [JObj ?p1, JObj ?p2].
          reconcile_product lower_ascii ?names ([JObj ?p1, JObj ?p2] ! i)
          = Inr ([JObj ?p1', JObj ?p2] ! i)"
    using p1 p2 by (simp add: less_Suc_eq nth_Cons')
  then have "\<exists>ps'. JObj ?q' = JObj (AList.update k_products (JArr ps') ?q)
                \<and> length ps' = length [JObj ?p1, JObj ?p2]
                \<and> (\<forall>i < length [JObj ?p1, JObj ?p2].
                     reconcile_product lower_ascii ?names ([JObj ?p1, JObj ?p2] ! i)
                     = Inr (ps' ! i))"
    using kq by (intro exI [of _ "[JObj ?p1', JObj ?p2]"]) simp
  moreover have "map_of ?q k_products = Some (JArr [JObj ?p1, JObj ?p2])"
    using kq by simp
  ultimately have q: "reconcile_quotation lower_ascii ?names (JObj ?q) = Inr (JObj ?q')"
    using quotation [of ?q "[JObj ?p1, JObj ?p2]" "JObj ?q'"] by blast
  from l q demo_saved platform_lower_ascii show ?thesis
    by (simp add: demo_row_def demo_product_def)
qed

text \<open>
  C9, as stated, fails: with one uploaded file \<open>a.stp\<close>, a data row with only two data
  values has no part number at index 2, and the step leaves its image slot as it was,
  whatever the platform's case mapping is.
\<close>

theorem reconcile_missing_part_number_counterexample:
  "save_uploads (\<lambda>p. True) demo_dir [\<lparr>u_name = ascii ''a.stp'', u_bytes = []\<rparr>]
     = Inr [\<lparr>f_path = demo_dir @ ascii ''/a.stp'', f_name = ascii ''a.stp''\<rparr>]
   \<and> get_index (JArr [JNum 1, JStr (ascii ''[img]'')]) 2 = Inr JUndefined
   \<and> (\<forall>lc. reconcile_layout lc
        (stpNames lc [\<lparr>f_path = demo_dir @ ascii ''/a.stp'', f_name = ascii ''a.stp''\<rparr>])
        [demo_row [JNum 1, JStr (ascii ''[img]'')]]
      = Inr [demo_row [JNum 1, JStr (ascii ''[img]'')]])"
  by (simp add: demo_dir_def path_join_def ascii_def reconcile_layout_def reconcile_item_def
      demo_row_def k_type_def k_data_def k_length_def main_table_data_row_def)

text \<open>
  C9, amended. When at least one CAD file was uploaded, the first file of \<open>stpInfo\<close> is
  the first upload, and: a data row with more than two data values whose part number (data
  index 2) is empty, null, false or 0, and a product (an object) whose part name is not
  there, empty, null, false or 0, get the lower-cased name of that first file as image
  slot (\<open>lc\<close> is the platform's case mapping); a data row with at most two data values is
  left as it is. The loop over a layout of such rows returns every row with that name in
  its image slot, and the loop over the products of a quotation, all of them such products,
  returns the quotation with that name as the part image of every product.
\<close>

theorem reconcile_empty_part_number:
  assumes "platform_lower lc"
      and "save_uploads writable dir uploads = Inr (f # fs)"
  shows "uploads \<noteq> [] \<and> f_name f = u_name (hd uploads)
       \<and> (map_of kvs k_type = Some (JStr main_table_data_row) \<and>
          map_of kvs k_data = Some (JArr d) \<and> 2 < length d \<and> \<not> truthy (d ! 2) \<longrightarrow>
            reconcile_item lc (stpNames lc (f # fs)) (JObj kvs) =
              Inr (JObj (AList.update k_data (JArr (d[1 := JStr (lc (f_name f))])) kvs)))
       \<and> ((case map_of pkvs k_part_name of None \<Rightarrow> True | Some v \<Rightarrow> \<not> truthy v) \<longrightarrow>
            reconcile_product lc (stpNames lc (f # fs)) (JObj pkvs) =
              Inr (JObj (AList.update k_part_image (JStr (lc (f_name f))) pkvs)))
       \<and> (map_of kvs k_data = Some (JArr d) \<and> length d \<le> 2 \<longrightarrow>
            reconcile_item lc (stpNames lc (f # fs)) (JObj kvs) = Inr (JObj kvs))
       \<and> ((\<forall>(rkvs, rd) \<in> set rows.
              map_of rkvs k_type = Some (JStr main_table_data_row) \<and>
              map_of rkvs k_data = Some (JArr rd) \<and> 2 < length rd \<and> \<not> truthy (rd ! 2)) \<longrightarrow>
            reconcile_layout lc (stpNames lc (f # fs)) (map (\<lambda>(rkvs, rd). JObj rkvs) rows) =
              Inr (map (\<lambda>(rkvs, rd).
                     JObj (AList.update k_data (JArr (rd[1 := JStr (lc (f_name f))])) rkvs)) rows))
       \<and> (map_of qkvs k_products = Some (JArr (map JObj pks)) \<and>
          (\<forall>pk \<in> set pks. case map_of pk k_part_name of None \<Rightarrow> True | Some v \<Rightarrow> \<not> truthy v) \<longrightarrow>
            reconcile_quotation lc (stpNames lc (f # fs)) (JObj qkvs) =
              Inr (JObj (AList.update k_products
                     (JArr (map (\<lambda>pk. JObj (AList.update k_part_image (JStr (lc (f_name f))) pk))
                                pks)) qkvs)))"
proof -
  let ?names = "stpNames lc (f # fs)"
  have names: "[] \<notin> set ?names"
    using assms by (rule stpNames_nonempty)
  from save_uploads_names [OF assms(2)] have "map u_name uploads = f_name f # map f_name fs"
    by simp
  then have ups: "uploads \<noteq> [] \<and> f_name f = u_name (hd uploads)"
    by (cases uploads) auto
  have "lc [] = []"
    using assms(1) by (simp add: platform_lower_empty)
  then have first: "find (\<lambda>n. startsWith n (lc [])) ?names = Some (lc (f_name f))"
    by (simp add: stpNames_def startsWith_def)
  have row: "reconcile_item lc ?names (JObj kvs) =
              Inr (JObj (AList.update k_data (JArr (d[1 := JStr (lc (f_name f))])) kvs))"
    if "map_of kvs k_type = Some (JStr main_table_data_row)"
      and "map_of kvs k_data = Some (JArr d)" and "2 < length d" and "\<not> truthy (d ! 2)"
    for kvs d
    using reconcile_item_row [OF names that(1,2,3)] that(4) first
    by (simp add: js_or_def)
  have prod: "reconcile_product lc ?names (JObj pkvs) =
              Inr (JObj (AList.update k_part_image (JStr (lc (f_name f))) pkvs))"
    if "case map_of pkvs k_part_name of None \<Rightarrow> True | Some v \<Rightarrow> \<not> truthy v"
    for pkvs
    using reconcile_product_row [OF names, of lc pkvs] that first
    by (simp add: js_or_def split: option.splits)
  have short: "reconcile_item lc ?names (JObj kvs) = Inr (JObj kvs)"
    if "map_of kvs k_data = Some (JArr d)" and "length d \<le> 2"
    using that by (rule reconcile_item_short)
  have layout: "reconcile_layout lc ?names (map (\<lambda>(rkvs, rd). JObj rkvs) rows) =
              Inr (map (\<lambda>(rkvs, rd).
                     JObj (AList.update k_data (JArr (rd[1 := JStr (lc (f_name f))])) rkvs)) rows)"
    if all: "\<forall>(rkvs, rd) \<in> set rows.
              map_of rkvs k_type = Some (JStr main_table_data_row) \<and>
              map_of rkvs k_data = Some (JArr rd) \<and> 2 < length rd \<and> \<not> truthy (rd ! 2)"
  proof -
    have "map_err (\<lambda>r. reconcile_item lc ?names (case r of (rkvs, rd) \<Rightarrow> JObj rkvs)) rows
          = Inr (map (\<lambda>(rkvs, rd).
                   JObj (AList.update k_data (JArr (rd[1 := JStr (lc (f_name f))])) rkvs)) rows)"
    proof (rule map_err_map)
      fix r assume "r \<in> set rows"
      with all obtain rkvs rd where r: "r = (rkvs, rd)"
        and "map_of rkvs k_type = Some (JStr main_table_data_row)"
        and "map_of rkvs k_data = Some (JArr rd)" and "2 < length rd" and "\<not> truthy (rd ! 2)"
        by (cases r) auto
      with row [of rkvs rd]
      show "reconcile_item lc ?names (case r of (rkvs, rd) \<Rightarrow> JObj rkvs)
            = Inr (case r of (rkvs, rd) \<Rightarrow>
                JObj (AList.update k_data (JArr (rd[1 := JStr (lc (f_name f))])) rkvs))"
        by simp
    qed
    then show ?thesis
      by (simp add: reconcile_layout_def map_err_comp)
  qed
  have quot: "reconcile_quotation lc ?names (JObj qkvs) =
              Inr (JObj (AList.update k_products
                     (JArr (map (\<lambda>pk. JObj (AList.update k_part_image (JStr (lc (f_name f))) pk))
                                pks)) qkvs))"
    if ps: "map_of qkvs k_products = Some (JArr (map JObj pks))"
      and all: "\<forall>pk \<in> set pks. case map_of pk k_part_name of None \<Rightarrow> True | Some v \<Rightarrow> \<not> truthy v"
  proof -
    have "map_err (\<lambda>pk. reconcile_product lc ?names (JObj pk)) pks
          = Inr (map (\<lambda>pk. JObj (AList.update k_part_image (JStr (lc (f_name f))) pk)) pks)"
      using all by (intro map_err_map prod) simp
    then show ?thesis
      using ps by (simp add: reconcile_quotation_def map_err_comp)
  qed
  from ups row prod short layout quot show ?thesis by blast
qed

theorem reconcile_empty_part_number_witness:
  "platform_lower lower_ascii
   \<and> save_uploads (\<lambda>p. True) demo_dir demo_uploads = Inr demo_info
   \<and> reconcile_layout lower_ascii (stpNames lower_ascii demo_info)
       [demo_row [JNum 1, JStr (ascii ''[img]''), JStr []],
        demo_row [JNum 2, JStr (ascii ''[img]''), JNull]]
      = Inr [demo_row [JNum 1, JStr (ascii ''p100-rev2.png''), JStr []],
             demo_row [JNum 2, JStr (ascii ''p100-rev2.png''), JNull]]
   \<and> reconcile_quotation lower_ascii (stpNames lower_ascii demo_info)
       (JObj [(k_products, JArr [JObj [(k_part_image, JStr (ascii ''[img]''))],
                                 demo_product (JStr (ascii ''[img]'')) (JStr [])])])
      = Inr (JObj [(k_products, JArr [JObj [(k_part_image, JStr (ascii ''p100-rev2.png''))],
                                 demo_product (JStr (ascii ''p100-rev2.png'')) (JStr [])])])
   \<and> reconcile_item lower_ascii (stpNames lower_ascii demo_info)
       (demo_row [JNum 1, JStr (ascii ''[img]'')])
      = Inr (demo_row [JNum 1, JStr (ascii ''[img]'')])"
proof -
  let ?names = "stpNames lower_ascii demo_info"
  let ?img = "JStr (ascii ''[img]'')"
  let ?d1 = "[JNum 1, ?img, JStr []]"
  let ?d2 = "[JNum 2, ?img, JNull]"
  let ?d3 = "[JNum 1, ?img]"
  let ?kvs = "\<lambda>d. [(k_type, JStr main_table_data_row), (k_data, JArr d), (ascii ''height'', JNum 22)]"
  let ?pk1 = "[(k_part_image, ?img)]"
  let ?pk2 = "[(k_part_image, ?img), (k_part_name, JStr [])]"
  let ?q = "[(k_products, JArr (map JObj [?pk1, ?pk2]))]"
  have saved: "save_uploads (\<lambda>p. True) demo_dir demo_uploads = Inr (hd demo_info # tl demo_info)"
    using demo_saved by (simp add: demo_info_def)
  have lo: "lower_ascii (f_name (hd demo_info)) = ascii ''p100-rev2.png''"
    by (simp add: demo_info_def lower_ascii_def lower_unit_def ascii_def)
  have cons: "hd demo_info # tl demo_info = demo_info"
    by (simp add: demo_info_def)
  note inst = reconcile_empty_part_number [OF platform_lower_ascii saved, unfolded cons lo]
  note short = inst [THEN conjunct2, THEN conjunct2, THEN conjunct2, THEN conjunct2,
      THEN conjunct1, rule_format]
  note layout = inst [THEN conjunct2, THEN conjunct2, THEN conjunct2, THEN conjunct2,
      THEN conjunct2, THEN conjunct1]
  note quotation = inst [THEN conjunct2, THEN conjunct2, THEN conjunct2, THEN conjunct2,
      THEN conjunct2, THEN conjunct2]
  have l: "reconcile_layout lower_ascii ?names [JObj (?kvs ?d1), JObj (?kvs ?d2)]
      = Inr [JObj (?kvs [JNum 1, JStr (ascii ''p100-rev2.png''), JStr []]),
             JObj (?kvs [JNum 2, JStr (ascii ''p100-rev2.png''), JNull])]"
    using layout [of "[(?kvs ?d1, ?d1), (?kvs ?d2, ?d2)]"] by simp
  have q: "reconcile_quotation lower_ascii ?names (JObj ?q)
      = Inr (JObj [(k_products,
               JArr [JObj [(k_part_image, JStr (ascii ''p100-rev2.png''))],
                     JObj [(k_part_image, JStr (ascii ''p100-rev2.png'')), (k_part_name, JStr [])]])])"
    using quotation [of ?q "[?pk1, ?pk2]"] by simp
  have s: "reconcile_item lower_ascii ?names (JObj (?kvs ?d3)) = Inr (JObj (?kvs ?d3))"
    using short [of "?kvs ?d3" ?d3] by simp
  from l q s demo_saved platform_lower_ascii show ?thesis
    by (simp add: demo_row_def demo_product_def)
qed

section \<open>Properties of the renderer\<close>

lemma render_loop_append:
  "render_loop (xs @ ys) m = ebind (render_loop xs m) (render_loop ys)"
proof (induction xs arbitrary: m)
  case Nil
  then show ?case by simp
next
  case (Cons x xs)
  obtain f io where x: "x = (f, io)" by (cases x)
  show ?case
    unfolding x by (simp add: Cons.IH fun_upd_def split: sum.splits option.splits)
qed

lemma render_loop_result:
  "\<exists>m'. render_loop files m = Inr m'
        \<and> dom m' \<subseteq> dom m \<union> (\<lambda>x. f_name (fst x)) ` set files
        \<and> (finite (dom m) \<longrightarrow> finite (dom m') \<and> card (dom m') \<le> card (dom m) + length files)"
proof (induction files arbitrary: m)
  case Nil
  then show ?case by simp
next
  case (Cons x rest)
  obtain f io where x: "x = (f, io)" by (cases x)
  let ?names = "\<lambda>fs::(stp_file \<times> rendered) list. (\<lambda>x. f_name (fst x)) ` set fs"
  have same: ?case if eq: "render_loop (x # rest) m = render_loop rest m"
  proof -
    from Cons.IH [of m] obtain m' where
      m': "render_loop rest m = Inr m'" and d: "dom m' \<subseteq> dom m \<union> ?names rest"
      and c: "finite (dom m) \<longrightarrow> finite (dom m') \<and> card (dom m') \<le> card (dom m) + length rest"
      by blast
    from d have "dom m' \<subseteq> dom m \<union> ?names (x # rest)" by auto
    moreover from c have "finite (dom m) \<longrightarrow>
        finite (dom m') \<and> card (dom m') \<le> card (dom m) + length (x # rest)" by auto
    ultimately show ?thesis using m' eq by metis
  qed
  show ?case
  proof (cases "render_one io")
    case (Inl e)
    then show ?thesis using same by (simp add: x)
  next
    case (Inr r)
    show ?thesis
    proof (cases r)
      case None
      with Inr show ?thesis using same by (simp add: x)
    next
      case (Some b)
      let ?m = "m(f_name f \<mapsto> b)"
      from Cons.IH [of ?m] obtain m' where
        m': "render_loop rest ?m = Inr m'"
        and d: "dom m' \<subseteq> dom ?m \<union> ?names rest"
        and c: "finite (dom ?m) \<longrightarrow> finite (dom m') \<and> card (dom m') \<le> card (dom ?m) + length rest"
        by blast
      have eq: "render_loop (x # rest) m = Inr m'"
        using Inr Some m' by (simp add: x)
      have dm: "dom ?m = insert (f_name f) (dom m)" by simp
      from d have d': "dom m' \<subseteq> dom m \<union> ?names (x # rest)"
        unfolding dm x by auto
      have "card (insert (f_name f) (dom m)) \<le> Suc (card (dom m))" if "finite (dom m)"
        using that by (simp add: card_insert_if)
      with c have c': "finite (dom m) \<longrightarrow>
                finite (dom m') \<and> card (dom m') \<le> card (dom m) + length (x # rest)"
        unfolding dm by auto
      from eq d' c' show ?thesis by blast
    qed
  qed
qed

text \<open>
  C8. \<open>renderStpFiles\<close> never throws: it returns a map from file names to image
  bytes whose keys are names of input files, with at most one entry per input file. A file
  whose response is not \<open>ok\<close>, or whose rendering throws, adds no entry and changes
  nothing else: the result is the one obtained without that file.
\<close>

theorem renderStpFiles_isolates_failures:
  "(\<exists>m. renderStpFiles url files = Inr m
        \<and> dom m \<subseteq> (\<lambda>x. f_name (fst x)) ` set files
        \<and> card (dom m) \<le> length files)
   \<and> (io = NotOk \<or> (\<exists>e. render_one io = Inl e) \<longrightarrow>
        renderStpFiles url (before @ [(f, io)] @ after) = renderStpFiles url (before @ after))"
proof
  show "\<exists>m. renderStpFiles url files = Inr m
        \<and> dom m \<subseteq> (\<lambda>x. f_name (fst x)) ` set files
        \<and> card (dom m) \<le> length files"
    using render_loop_result [of files Map.empty]
    by (auto simp: renderStpFiles_def)
next
  show "io = NotOk \<or> (\<exists>e. render_one io = Inl e) \<longrightarrow>
        renderStpFiles url (before @ [(f, io)] @ after) = renderStpFiles url (before @ after)"
  proof
    assume "io = NotOk \<or> (\<exists>e. render_one io = Inl e)"
    then have "render_loop ((f, io) # after) m = render_loop after m" for m
      by auto
    then have skip: "render_loop ((f, io) # after) = render_loop after"
      by (rule ext)
    have "render_loop (before @ (f, io) # after) Map.empty = render_loop (before @ after) Map.empty"
      by (simp only: render_loop_append skip)
    then show "renderStpFiles url (before @ [(f, io)] @ after) = renderStpFiles url (before @ after)"
      by (simp add: renderStpFiles_def)
  qed
qed




theorem renderStpFiles_isolates_failures_witness:
  "NotOk = NotOk
   \<and> renderStpFiles demo_url [(hd demo_info, NotOk), (hd (tl demo_info), demo_zip)]
     = renderStpFiles demo_url [(hd (tl demo_info), demo_zip)]
   \<and> (case renderStpFiles demo_url [(hd demo_info, NotOk), (hd (tl demo_info), demo_zip)] of
        Inr m \<Rightarrow> m (ascii ''p200.png'') = Some [137, 80, 78, 71] \<and> m (ascii ''P100-rev2.png'') = None
      | Inl e \<Rightarrow> False)"
proof -
  have eq: "renderStpFiles demo_url [(hd demo_info, NotOk), (hd (tl demo_info), demo_zip)]
     = renderStpFiles demo_url [(hd (tl demo_info), demo_zip)]"
    using renderStpFiles_isolates_failures
      [of demo_url "[]" NotOk "[]" "hd demo_info" "[(hd (tl demo_info), demo_zip)]"]
    by simp
  have "renderStpFiles demo_url [(hd (tl demo_info), demo_zip)]
        = Inr (Map.empty(ascii ''p200.png'' \<mapsto> [137, 80, 78, 71]))"
    by (simp add: renderStpFiles_def demo_url_def demo_zip_def demo_info_def is_image_name_def
        upper_ascii_def ascii_def suffix_def)
  with eq show ?thesis by (simp add: ascii_def)
qed

section \<open>Properties of the emitters\<close>


lemma row_kind_distinct [simp]:
  "main_table_data_row \<noteq> title_row" "main_table_data_row \<noteq> header_detail_row"
  "main_table_data_row \<noteq> main_table_header_row"
  by (simp_all add: key_defs ascii_def)





lemma has_image_simps [simp]:
  "has_image [] = False"
  "has_image (xs @ ys) = (has_image xs \<or> has_image ys)"
  "has_image (AddImage b n # xs) = True"
  "has_image (AddMember k n # xs) = True"
  "has_image (SetColumns cols # xs) = has_image xs"
  "has_image (MergeCells mc # xs) = has_image xs"
  "has_image (SetCell a v # xs) = has_image xs"
  "has_image (SetCellProp a k v # xs) = has_image xs"
  "has_image (SetRowCell n a v # xs) = has_image xs"
  "has_image (SetRowValues n v # xs) = has_image xs"
  "has_image (AddRow n vals # xs) = has_image xs"
  "has_image (SetRowProp n k v # xs) = has_image xs"
  "has_image (SetHeight n v # xs) = has_image xs"
  by (simp_all add: has_image_def)




lemma has_image_sheet [simp]:
  "has_image (fst (add_row vals sh)) = has_image (fst sh)"
  "has_image (fst (info_row vals sh)) = has_image (fst sh)"
  "has_image (fst (info_line v sh)) = has_image (fst sh)"
  "has_image (fst (plain_product_row pk sh)) = has_image (fst sh)"
  "has_image (fst (do_op (SetHeight n h) sh)) = has_image (fst sh)"
  "has_image (fst (do_op (MergeCells mc) sh)) = has_image (fst sh)"
  "has_image (fst (do_op (SetRowProp n k v) sh)) = has_image (fst sh)"
  by (simp_all add: add_row_def info_row_def info_line_def plain_product_row_def do_op_def
      Let_def)

lemma has_image_info_rows [simp]:
  "has_image (fst (foldl (\<lambda>s vals. info_row vals s) sh rows)) = has_image (fst sh)"
  by (induction rows arbitrary: sh) simp_all

lemma has_image_info_lines [simp]:
  "has_image (fst (foldl (\<lambda>s v. info_line v s) sh vs)) = has_image (fst sh)"
  by (induction vs arbitrary: sh) simp_all

lemma has_image_product_rows [simp]:
  "has_image (fst (foldl (\<lambda>s pk. plain_product_row pk s) sh pks)) = has_image (fst sh)"
  by (induction pks arbitrary: sh) simp_all

lemma has_image_title [simp]: "\<not> has_image (fst (quotation_title number))"
  by (simp add: quotation_title_def)





text \<open>
  C6 at a concrete input: one data row with height 22 whose image slot \<open>a.png\<close> is a
  key of the image map. The image is anchored in row 1, the height is first set to 80 and
  then, by the assignment that ends every iteration, to the row's own 22: the final height
  is 22, below 80.
\<close>

theorem production_order_image_row_height:
  "buildProductionOrder no_rejects
     [demo_row [JNum 1, JStr (ascii ''a.png''), JStr (ascii ''P1'')]] demo_images
   = Inr [SetColumns production_columns,
          SetRowValues 1 (JArr [JNum 1, JStr (ascii ''a.png''), JStr (ascii ''P1'')]),
          AddImage [137, 80, 78, 71] 1, SetHeight 1 (JNum 80), SetHeight 1 (JNum 22)]
   \<and> row_images [SetColumns production_columns,
          SetRowValues 1 (JArr [JNum 1, JStr (ascii ''a.png''), JStr (ascii ''P1'')]),
          AddImage [137, 80, 78, 71] 1, SetHeight 1 (JNum 80), SetHeight 1 (JNum 22)] 1
     = [[137, 80, 78, 71]]
   \<and> row_height [SetColumns production_columns,
          SetRowValues 1 (JArr [JNum 1, JStr (ascii ''a.png''), JStr (ascii ''P1'')]),
          AddImage [137, 80, 78, 71] 1, SetHeight 1 (JNum 80), SetHeight 1 (JNum 22)] 1
     = JNum 22"
  by (simp add: buildProductionOrder_def production_row_def production_switch_def demo_row_def
      demo_images_def no_rejects_def key_defs ascii_def js_or_def lookup_image_def Let_def
      row_height_def math_max_def row_images_def)





lemma map_of_keyed_map:
  "map_of (map (\<lambda>kv. (fst kv, g (fst kv) (snd kv))) kvs) k = map_option (g k) (map_of kvs k)"
  by (induction kvs) auto

lemma map_of_filter_keys:
  "k \<notin> set ks \<Longrightarrow> map_of (filter (\<lambda>kv. fst kv \<notin> set ks) kvs) k = map_of kvs k"
  by (induction kvs) auto

lemma get_prop_drop_keys:
  "k \<notin> set ks \<Longrightarrow> get_prop (drop_keys ks v) k = get_prop v k"
  by (cases v) (simp_all add: drop_keys_def map_of_filter_keys)

lemma redact_field_plain [simp]:
  "redact_field k JUndefined = JUndefined" "redact_field k (JNum n) = JNum n"
  by (simp_all add: redact_field_def drop_keys_def)

lemma get_prop_redact:
  "get_prop (redact_quotation q) k = ebind (get_prop q k) (\<lambda>v. Inr (redact_field k v))"
proof (cases q)
  case (JObj kvs)
  then show ?thesis
    by (simp add: redact_quotation_def map_of_keyed_map split: option.splits)
qed (simp_all add: redact_quotation_def)

lemma get_prop_redact_other:
  "k \<noteq> k_products \<Longrightarrow> k \<noteq> k_company_info \<Longrightarrow> get_prop (redact_quotation q) k = get_prop q k"
  by (cases "get_prop q k") (simp_all add: get_prop_redact redact_field_def)

lemma company_keys_kept:
  "k_party_a \<notin> set ignored_company_keys" "k_party_b \<notin> set ignored_company_keys"
  "k_tel_b \<notin> set ignored_company_keys" "k_fax_b \<notin> set ignored_company_keys"
  "k_email_b \<notin> set ignored_company_keys" "k_address_b \<notin> set ignored_company_keys"
  by (simp_all add: ignored_company_keys_def key_defs ascii_def)

lemma product_keys_kept:
  "k_seq \<notin> set ignored_product_keys" "k_part_image \<notin> set ignored_product_keys"
  "k_part_name \<notin> set ignored_product_keys" "k_surface \<notin> set ignored_product_keys"
  "k_material \<notin> set ignored_product_keys" "k_quantity \<notin> set ignored_product_keys"
  "k_notes \<notin> set ignored_product_keys"
  by (simp_all add: ignored_product_keys_def key_defs)

lemma infoRows_redact: "infoRows (drop_keys ignored_company_keys ci) = infoRows ci"
  by (simp add: infoRows_def get_prop_drop_keys company_keys_kept)

lemma quotation_product_redact:
  "quotation_product images (drop_keys ignored_product_keys p) sh = quotation_product images p sh"
  by (simp add: quotation_product_def get_prop_drop_keys product_keys_kept)

lemma quotation_products_redact:
  "quotation_products images (map (drop_keys ignored_product_keys) ps) sh
   = quotation_products images ps sh"
proof (induction ps arbitrary: sh)
  case Nil
  then show ?case by simp
next
  case (Cons p ps)
  have "quotation_products images (map (drop_keys ignored_product_keys) ps)
        = quotation_products images ps"
    by (intro ext) (simp add: Cons.IH)
  then show ?case
    by (simp add: quotation_product_redact)
qed

lemma other_keys [simp]:
  "k_quote_number \<noteq> k_products" "k_quote_number \<noteq> k_company_info"
  "k_payment_terms \<noteq> k_products" "k_payment_terms \<noteq> k_company_info"
  "k_acceptance_standard \<noteq> k_products" "k_acceptance_standard \<noteq> k_company_info"
  "k_notice \<noteq> k_products" "k_notice \<noteq> k_company_info"
  "k_signature_date \<noteq> k_products" "k_signature_date \<noteq> k_company_info"
  "k_company_info \<noteq> k_products"
  by (simp_all add: key_defs ascii_def)

lemma quotation_tail_redact: "quotation_tail (redact_quotation q) sh = quotation_tail q sh"
  by (simp add: quotation_tail_def get_prop_redact_other)

lemma buildQuotation_redact:
  "buildQuotation (redact_quotation q) images = buildQuotation q images"
proof (cases "get_prop q k_company_info")
  case (Inl e)
  then have "q = JNull \<or> q = JUndefined" by (cases q) auto
  then show ?thesis by (auto simp: redact_quotation_def)
next
  case (Inr ci)
  note ci = this
  obtain ps where ps: "get_prop q k_products = Inr ps"
    using ci by (cases q) auto
  have 1: "get_prop (redact_quotation q) k_company_info = Inr (drop_keys ignored_company_keys ci)"
    by (simp add: get_prop_redact ci redact_field_def)
  have 2: "get_prop (redact_quotation q) k_products
           = Inr (case ps of JArr xs \<Rightarrow> JArr (map (drop_keys ignored_product_keys) xs) | _ \<Rightarrow> ps)"
    by (simp add: get_prop_redact ps redact_field_def)
  show ?thesis
    by (cases ps)
       (simp_all add: buildQuotation_def 1 2 ci ps get_prop_redact_other infoRows_redact
          quotation_products_redact quotation_tail_redact)
qed

text \<open>
  C10. Two quotation records that differ only in the unit price and line total of their
  products, in the contact, telephone, fax, e-mail and address of party A, or in the
  contact of party B give the same workbook. In every product row the cells of unit price
  and line total (the seventh and eighth) are the empty string; in the company block the
  party-A side of the contact, TEL, FAX, E-mail and address rows is the bare label, and the
  party-B contact cell is the fixed text of the source.
\<close>

theorem quotation_ignores_prices_and_contacts:
  "(redact_quotation q1 = redact_quotation q2 \<longrightarrow>
      buildQuotation q1 images = buildQuotation q2 images)
   \<and> (quotation_product images p sh = Inr sh' \<longrightarrow>
        (\<exists>vals. fst sh' ! length (fst sh) = AddRow (Suc (snd sh)) vals \<and> length vals = 9
               \<and> vals ! 6 = JStr [] \<and> vals ! 7 = JStr []))
   \<and> (infoRows ci = Inr rows \<longrightarrow>
        map hd (tl rows) = [JStr l_contact, JStr (ascii ''TEL:''), JStr (ascii ''FAX:''),
                            JStr (ascii ''E-mail:''), JStr l_address]
        \<and> last (rows ! 1) = JStr l_contact_b)"
proof (intro conjI impI)
  assume "redact_quotation q1 = redact_quotation q2"
  then have "buildQuotation (redact_quotation q1) images = buildQuotation (redact_quotation q2) images"
    by simp
  then show "buildQuotation q1 images = buildQuotation q2 images"
    by (simp only: buildQuotation_redact)
next
  assume "quotation_product images p sh = Inr sh'"
  then show "\<exists>vals. fst sh' ! length (fst sh) = AddRow (Suc (snd sh)) vals \<and> length vals = 9
               \<and> vals ! 6 = JStr [] \<and> vals ! 7 = JStr []"
    by (auto simp: quotation_product_def Let_def add_row_def do_op_def ebind_def nth_append
        split: sum.splits found.splits)
next
  assume "infoRows ci = Inr rows"
  then show "map hd (tl rows) = [JStr l_contact, JStr (ascii ''TEL:''), JStr (ascii ''FAX:''),
                            JStr (ascii ''E-mail:''), JStr l_address]"
    by (auto simp: infoRows_def ebind_def split: sum.splits)
next
  assume "infoRows ci = Inr rows"
  then show "last (rows ! 1) = JStr l_contact_b"
    by (auto simp: infoRows_def ebind_def split: sum.splits)
qed

lemma demo_redact:
  "redact_quotation (demo_quotation a b c) = redact_quotation (demo_quotation a' b' c')"
  by (simp add: demo_quotation_def demo_company_def redact_quotation_def redact_field_def
      drop_keys_def ignored_company_keys_def ignored_product_keys_def key_defs ascii_def)

theorem quotation_ignores_prices_and_contacts_witness:
  "redact_quotation (demo_quotation (JStr (ascii ''9.50'')) (JStr (ascii ''Li'')) (JStr (ascii ''Fu'')))
     = redact_quotation (demo_quotation (JStr []) JNull (JStr (ascii ''Jia'')))
   \<and> buildQuotation (demo_quotation (JStr (ascii ''9.50'')) (JStr (ascii ''Li'')) (JStr (ascii ''Fu''))) Map.empty
     = buildQuotation (demo_quotation (JStr []) JNull (JStr (ascii ''Jia''))) Map.empty
   \<and> (\<exists>ops. buildQuotation (demo_quotation (JStr []) JNull (JStr (ascii ''Jia''))) Map.empty = Inr ops
          \<and> ops ! 31 = AddRow 9 [JNum 1, JStr (ascii ''a.png''), JStr (ascii ''P1''), JUndefined,
                                  JUndefined, JUndefined, JStr [], JStr [], JUndefined]
          \<and> ops ! 9 = AddRow 3 [JStr l_contact, JStr [], JStr [], JStr [], JStr l_contact_b])"
proof -
  let ?q1 = "demo_quotation (JStr (ascii ''9.50'')) (JStr (ascii ''Li'')) (JStr (ascii ''Fu''))"
  let ?q2 = "demo_quotation (JStr []) JNull (JStr (ascii ''Jia''))"
  have h: "redact_quotation ?q1 = redact_quotation ?q2"
    by (rule demo_redact)
  from quotation_ignores_prices_and_contacts [of ?q1 ?q2 Map.empty] h
  have eq: "buildQuotation ?q1 Map.empty = buildQuotation ?q2 Map.empty"
    by blast
  have ev: "\<exists>ops. buildQuotation ?q2 Map.empty = Inr ops
          \<and> ops ! 31 = AddRow 9 [JNum 1, JStr (ascii ''a.png''), JStr (ascii ''P1''), JUndefined,
                                  JUndefined, JUndefined, JStr [], JStr [], JUndefined]
          \<and> ops ! 9 = AddRow 3 [JStr l_contact, JStr [], JStr [], JStr [], JStr l_contact_b]"
    by (simp add: buildQuotation_def demo_quotation_def demo_company_def infoRows_def
        quotation_title_def info_row_def add_row_def do_op_def Let_def quotation_product_def
        quotation_tail_def info_line_def key_defs ascii_def lookup_image_def js_or_def
        object_prototype_members_def)
  from h eq ev show ?thesis by blast
qed

section \<open>Properties of the normalizer\<close>

lemma set_scan_row:
  "(r', c, t) \<in> set (scan_row cell r) \<longleftrightarrow>
     r' = r \<and> 1 \<le> c \<and> c \<le> maxCol \<and> has_value (cell r c)
     \<and> t = trim (cell_text (cell r c)) \<and> t \<noteq> []"
  by (auto simp: scan_row_def simp del: upt_Suc)

lemma check_row_found:
  "fst (check_row cell r cs) \<longleftrightarrow> (\<exists>c \<in> set cs. has_value (cell r c))"
  by (induction cs) auto

lemma check_row_reads:
  "set (snd (check_row cell r cs)) \<subseteq> Pair r ` set cs"
  by (induction cs) auto


lemma check_row_blank: "fst (check_row cell r [Suc 0 ..< Suc maxCol]) \<longleftrightarrow> \<not> blank_row cell r"
  by (auto simp: check_row_found blank_row_def simp del: upt_Suc)

lemma count_empty_takeWhile:
  "fst (count_empty cell rs) = length (takeWhile (blank_row cell) rs)"
  by (induction rs) (auto simp: Let_def check_row_blank simp del: upt_Suc)

lemma count_empty_reads:
  "set (snd (count_empty cell rs)) \<subseteq> set rs \<times> {1..maxCol}"
proof (induction rs)
  case Nil
  then show ?case by simp
next
  case (Cons r rs)
  have "set (snd (check_row cell r [1 ..< Suc maxCol])) \<subseteq> {r} \<times> {1..maxCol}"
    using check_row_reads [of cell r "[1 ..< Suc maxCol]"] by (auto simp del: upt_Suc)
  with Cons show ?case
    by (auto simp: Let_def simp del: upt_Suc)
qed

lemma lookahead_stop:
  "10 \<le> fst (count_empty cell (lookahead_rows r)) \<longleftrightarrow>
     r + 10 \<le> maxRow \<and> (\<forall>k \<in> {r + 1..r + 10}. blank_row cell k)"
proof -
  let ?rs = "lookahead_rows r"
  have len: "length ?rs = min (r + 10) maxRow - r"
    by (simp add: lookahead_rows_def del: upt_Suc)
  have le: "length (takeWhile (blank_row cell) ?rs) \<le> length ?rs"
    by (rule length_takeWhile_le)
  show ?thesis
  proof
    assume a: "10 \<le> fst (count_empty cell ?rs)"
    then have tw: "10 \<le> length (takeWhile (blank_row cell) ?rs)"
      by (simp add: count_empty_takeWhile)
    with le len have r: "r + 10 \<le> maxRow" by (simp add: min_def split: if_splits)
    with len have l10: "length ?rs = 10" by simp
    with tw le have "length (takeWhile (blank_row cell) ?rs) = length ?rs" by simp
    then have "takeWhile (blank_row cell) ?rs = ?rs"
      by (metis takeWhile_eq_take take_all order_refl)
    then have "\<forall>k \<in> set ?rs. blank_row cell k"
      by (metis set_takeWhileD)
    moreover from r have "set ?rs = {r + 1..r + 10}"
      by (auto simp: lookahead_rows_def simp del: upt_Suc)
    ultimately show "r + 10 \<le> maxRow \<and> (\<forall>k \<in> {r + 1..r + 10}. blank_row cell k)"
      using r by simp
  next
    assume b: "r + 10 \<le> maxRow \<and> (\<forall>k \<in> {r + 1..r + 10}. blank_row cell k)"
    then have s: "set ?rs = {r + 1..r + 10}"
      by (auto simp: lookahead_rows_def simp del: upt_Suc)
    with b have "takeWhile (blank_row cell) ?rs = ?rs"
      by (simp add: takeWhile_eq_all_conv)
    then have "length (takeWhile (blank_row cell) ?rs) = length ?rs"
      by (simp only:)
    with b len show "10 \<le> fst (count_empty cell ?rs)"
      by (simp only: count_empty_takeWhile) simp
  qed
qed

lemma scan_rows_found:
  "rf \<in> set (fst (scan_rows cell h rs)) \<Longrightarrow> fst rf \<in> set rs \<and> snd rf = scan_row cell (fst rf)"
  by (induction rs arbitrary: h) (auto simp: Let_def split: if_splits)

lemma scan_rows_reads:
  "(r, c) \<in> set (snd (scan_rows cell h rs)) \<Longrightarrow>
     c \<in> {1..maxCol} \<and> (r \<in> set rs \<or> (\<exists>r0 \<in> set rs. r \<in> set (lookahead_rows r0)))"
proof (induction rs arbitrary: h)
  case Nil
  then show ?case by simp
next
  case (Cons r0 rs)
  have look: "(r, c) \<in> set (snd (count_empty cell (lookahead_rows r0))) \<Longrightarrow>
              c \<in> {1..maxCol} \<and> r \<in> set (lookahead_rows r0)"
    using count_empty_reads [of cell "lookahead_rows r0"] by auto
  from Cons.prems consider
      (here) "(r, c) \<in> set (map (Pair r0) [1 ..< Suc maxCol])"
    | (look) "(r, c) \<in> set (snd (count_empty cell (lookahead_rows r0)))"
    | (rest) h' where "(r, c) \<in> set (snd (scan_rows cell h' rs))"
    by (auto simp: Let_def simp del: upt_Suc split: if_splits)
  then show ?case
  proof cases
    case here
    then show ?thesis by (auto simp del: upt_Suc)
  next
    case look
    with \<open>(r, c) \<in> set (snd (count_empty cell (lookahead_rows r0))) \<Longrightarrow>
              c \<in> {1..maxCol} \<and> r \<in> set (lookahead_rows r0)\<close>
    show ?thesis by auto
  next
    case rest
    from Cons.IH [OF rest] show ?thesis by auto
  qed
qed

lemma scanned_rows_iff:
  "a \<le> Suc maxRow \<Longrightarrow>
   R \<in> fst ` set (fst (scan_rows cell h [a ..< Suc maxRow])) \<longleftrightarrow>
     a \<le> R \<and> R \<le> maxRow \<and>
     (\<forall>r. a \<le> r \<and> r < R \<longrightarrow>
        \<not> ((h \<or> (\<exists>r' \<in> {a..r}. scan_row cell r' \<noteq> [])) \<and> scan_row cell r = []
           \<and> 10 \<le> fst (count_empty cell (lookahead_rows r))))"
proof (induction "Suc maxRow - a" arbitrary: a h)
  case 0
  then have "a = Suc maxRow" by simp
  then show ?case by auto
next
  case (Suc n)
  then have lt: "a < Suc maxRow" by simp
  let ?D = "\<lambda>r. scan_row cell r \<noteq> []"
  let ?L = "\<lambda>r. 10 \<le> fst (count_empty cell (lookahead_rows r))"
  let ?stop = "\<lambda>h a r. (h \<or> (\<exists>r' \<in> {a..r}. scan_row cell r' \<noteq> [])) \<and> scan_row cell r = []
                 \<and> 10 \<le> fst (count_empty cell (lookahead_rows r))"
  have rows: "[a ..< Suc maxRow] = a # [Suc a ..< Suc maxRow]"
    using lt by (rule upt_conv_Cons)
  show ?case
  proof (cases "h \<and> \<not> ?D a \<and> ?L a")
    case True
    then have res: "fst (scan_rows cell h [a ..< Suc maxRow]) = [(a, scan_row cell a)]"
      unfolding rows by (simp add: Let_def)
    from True have st: "?stop h a a" by simp
    show ?thesis
    proof
      assume "R \<in> fst ` set (fst (scan_rows cell h [a ..< Suc maxRow]))"
      with res have "R = a" by simp
      with lt show "a \<le> R \<and> R \<le> maxRow \<and> (\<forall>r. a \<le> r \<and> r < R \<longrightarrow> \<not> ?stop h a r)"
        by auto
    next
      assume r: "a \<le> R \<and> R \<le> maxRow \<and> (\<forall>r. a \<le> r \<and> r < R \<longrightarrow> \<not> ?stop h a r)"
      have "R = a"
      proof (rule ccontr)
        assume "R \<noteq> a"
        with r have "a < R" by simp
        with r have "\<not> ?stop h a a" by blast
        with st show False by blast
      qed
      with res show "R \<in> fst ` set (fst (scan_rows cell h [a ..< Suc maxRow]))" by simp
    qed
  next
    case False
    let ?h = "h \<or> ?D a"
    from False have res: "fst (scan_rows cell h [a ..< Suc maxRow])
        = (a, scan_row cell a) # fst (scan_rows cell ?h [Suc a ..< Suc maxRow])"
      unfolding rows by (auto simp: Let_def)
    from False have nst: "\<not> ?stop h a a" by auto
    have same: "?stop ?h (Suc a) r = ?stop h a r" if "Suc a \<le> r" for r
    proof -
      from that have "{a..r} = insert a {Suc a..r}" by auto
      then show ?thesis by auto
    qed
    from Suc.hyps(2) have n: "n = Suc maxRow - Suc a" by simp
    from lt have le: "Suc a \<le> Suc maxRow" by simp
    note IH = Suc.hyps(1) [OF n le, of ?h]
    show ?thesis
    proof
      assume "R \<in> fst ` set (fst (scan_rows cell h [a ..< Suc maxRow]))"
      with res consider "R = a" | "R \<in> fst ` set (fst (scan_rows cell ?h [Suc a ..< Suc maxRow]))"
        by auto
      then show "a \<le> R \<and> R \<le> maxRow \<and> (\<forall>r. a \<le> r \<and> r < R \<longrightarrow> \<not> ?stop h a r)"
      proof cases
        case 1
        with lt show ?thesis by auto
      next
        case 2
        with IH have i: "Suc a \<le> R \<and> R \<le> maxRow \<and>
            (\<forall>r. Suc a \<le> r \<and> r < R \<longrightarrow> \<not> ?stop ?h (Suc a) r)" by simp
        have "\<not> ?stop h a r" if "a \<le> r \<and> r < R" for r
        proof (cases "r = a")
          case True
          with nst show ?thesis by simp
        next
          case False
          with that have s: "Suc a \<le> r" by simp
          with i that have "\<not> ?stop ?h (Suc a) r" by blast
          with same [OF s] show ?thesis by blast
        qed
        with i show ?thesis by auto
      qed
    next
      assume r: "a \<le> R \<and> R \<le> maxRow \<and> (\<forall>r. a \<le> r \<and> r < R \<longrightarrow> \<not> ?stop h a r)"
      show "R \<in> fst ` set (fst (scan_rows cell h [a ..< Suc maxRow]))"
      proof (cases "R = a")
        case True
        with res show ?thesis by simp
      next
        case False
        with r have s: "Suc a \<le> R" by simp
        have "\<not> ?stop ?h (Suc a) r'" if "Suc a \<le> r' \<and> r' < R" for r'
        proof -
          from that r have "\<not> ?stop h a r'" by simp
          with same [of r'] that show ?thesis by blast
        qed
        with s r IH have "R \<in> fst ` set (fst (scan_rows cell ?h [Suc a ..< Suc maxRow]))"
          by simp
        with res show ?thesis by simp
      qed
    qed
  qed
qed

lemma scan_rows_reads_row:
  "rf \<in> set (fst (scan_rows cell h rs)) \<Longrightarrow> c \<in> {1..maxCol} \<Longrightarrow>
   (fst rf, c) \<in> set (snd (scan_rows cell h rs))"
  by (induction rs arbitrary: h) (auto simp: Let_def simp del: upt_Suc split: if_splits)

lemma scan_sheet_rows:
  "R \<in> fst ` set (fst (scan_sheet ws)) \<longleftrightarrow>
     1 \<le> R \<and> R \<le> maxRow \<and> (\<forall>r. 1 \<le> r \<and> r < R \<longrightarrow> \<not> stop_here (ws_cell ws) r)"
  using scanned_rows_iff [of 1 R "ws_cell ws" False]
  by (simp add: scan_sheet_def stop_here_def lookahead_stop del: upt_Suc)

lemma scan_sheet_window:
  "(r, c) \<in> set (snd (scan_sheet ws)) \<Longrightarrow> 1 \<le> r \<and> r \<le> maxRow \<and> 1 \<le> c \<and> c \<le> maxCol"
  using scan_rows_reads [of r c "ws_cell ws" False "[1 ..< Suc maxRow]"]
  by (auto simp: scan_sheet_def lookahead_rows_def simp del: upt_Suc)

lemma scan_sheet_found:
  "rf \<in> set (fst (scan_sheet ws)) \<Longrightarrow> (r, c, t) \<in> set (snd rf) \<Longrightarrow>
   r = fst rf \<and> 1 \<le> r \<and> r \<le> maxRow \<and> 1 \<le> c \<and> c \<le> maxCol
   \<and> t = trim (cell_text (ws_cell ws r c))"
  using scan_rows_found [of rf "ws_cell ws" False "[1 ..< Suc maxRow]"]
  by (auto simp: scan_sheet_def set_scan_row simp del: upt_Suc)

text \<open>
  C5, amended. The scan of a sheet works in a window of 200 rows by 50 columns: every cell
  it reads, in the main loop or in the look-ahead, and every cell it emits lies in the
  window, and an emitted cell carries the trimmed text of the cell at its address. Row
  \<open>R\<close> is scanned exactly when it is in the window and no earlier row is a stopping row.
  A stopping row is a row without data, after data has been seen, whose next ten rows are
  still within the 200 rows and hold no value in the columns 1 to 50: the scan stops on
  eleven consecutive empty rows, the current one and the ten it looks ahead at, and never
  in the last ten rows of the window.
\<close>

theorem scan_window_and_stop:
  "maxRow = 200 \<and> maxCol = 50
   \<and> (\<forall>(r, c) \<in> set (snd (scan_sheet ws)). 1 \<le> r \<and> r \<le> maxRow \<and> 1 \<le> c \<and> c \<le> maxCol)
   \<and> (\<forall>rf \<in> set (fst (scan_sheet ws)). \<forall>(r, c, t) \<in> set (snd rf).
         r = fst rf \<and> 1 \<le> r \<and> r \<le> maxRow \<and> 1 \<le> c \<and> c \<le> maxCol
         \<and> t = trim (cell_text (ws_cell ws r c)))
   \<and> (R \<in> fst ` set (fst (scan_sheet ws)) \<longleftrightarrow>
        1 \<le> R \<and> R \<le> maxRow \<and> (\<forall>r. 1 \<le> r \<and> r < R \<longrightarrow> \<not> stop_here (ws_cell ws) r))"
proof (intro conjI)
  show "maxRow = 200" by (simp add: maxRow_def)
  show "maxCol = 50" by (simp add: maxCol_def)
  show "\<forall>(r, c) \<in> set (snd (scan_sheet ws)). 1 \<le> r \<and> r \<le> maxRow \<and> 1 \<le> c \<and> c \<le> maxCol"
    using scan_sheet_window by blast
  show "\<forall>rf \<in> set (fst (scan_sheet ws)). \<forall>(r, c, t) \<in> set (snd rf).
         r = fst rf \<and> 1 \<le> r \<and> r \<le> maxRow \<and> 1 \<le> c \<and> c \<le> maxCol
         \<and> t = trim (cell_text (ws_cell ws r c))"
    using scan_sheet_found by blast
  show "R \<in> fst ` set (fst (scan_sheet ws)) \<longleftrightarrow>
        1 \<le> R \<and> R \<le> maxRow \<and> (\<forall>r. 1 \<le> r \<and> r < R \<longrightarrow> \<not> stop_here (ws_cell ws) r)"
    by (rule scan_sheet_rows)
qed

lemma demo_row1: "scan_row demo_cells 1 \<noteq> []"
proof -
  have "(1, 1, ascii ''x'') \<in> set (scan_row demo_cells 1)"
    by (simp add: set_scan_row demo_cells_def has_value_def trim_def is_space_def ascii_def
        maxCol_def)
  then show ?thesis by auto
qed

lemma demo_no_stop: "1 \<le> r \<Longrightarrow> r < 12 \<Longrightarrow> \<not> stop_here demo_cells r"
proof (cases "r = 1")
  case True
  then show ?thesis using demo_row1 by (simp add: stop_here_def)
next
  case False
  assume "1 \<le> r" "r < 12"
  with False have "12 \<in> {r + 1..r + 10}" by auto
  moreover have "\<not> blank_row demo_cells 12"
    by (auto simp: blank_row_def demo_cells_def has_value_def maxCol_def ascii_def
        intro!: bexI [of _ 1])
  ultimately show ?thesis by (auto simp: stop_here_def)
qed

lemma concat_map_empty: "\<forall>x \<in> set xs. f x = [] \<Longrightarrow> concat (map f xs) = []"
  by (induction xs) auto

lemma demo_row12: "scan_row demo_cells 12 = [(12, 1, ascii ''y'')]"
proof -
  let ?f = "\<lambda>c. if has_value (demo_cells 12 c) \<and> trim (cell_text (demo_cells 12 c)) \<noteq> []
                 then [(12::nat, c, trim (cell_text (demo_cells 12 c)))] else []"
  have cols: "[1 ..< Suc maxCol] = 1 # [2 ..< Suc maxCol]"
    by (simp add: maxCol_def upt_conv_Cons del: upt_Suc)
  have "\<forall>c \<in> set [2 ..< Suc maxCol]. ?f c = []"
    by (auto simp: demo_cells_def has_value_def)
  then have rest: "concat (map ?f [2 ..< Suc maxCol]) = []"
    by (rule concat_map_empty)
  have first: "?f 1 = [(12, 1, ascii ''y'')]"
    by (simp add: demo_cells_def has_value_def trim_def is_space_def ascii_def)
  have "concat (map ?f (1 # [2 ..< Suc maxCol])) = ?f 1 @ concat (map ?f [2 ..< Suc maxCol])"
    by (simp only: list.map concat.simps)
  then show ?thesis
    unfolding scan_row_def cols by (simp only: rest first append_Nil2)
qed

lemma demo_blank_rows: "fst (count_empty demo_cells [2 ..< 12]) = 10"
proof -
  have "\<forall>k \<in> set [2 ..< 12]. blank_row demo_cells k"
    by (auto simp: blank_row_def demo_cells_def has_value_def)
  then have "takeWhile (blank_row demo_cells) [2 ..< 12] = [2 ..< 12]"
    by (simp only: takeWhile_eq_all_conv)
  then have "length (takeWhile (blank_row demo_cells) [2 ..< 12]) = length [2 ..< 12::nat]"
    by (simp only:)
  then show ?thesis by (simp only: count_empty_takeWhile) simp
qed

text \<open>
  C5, as stated, fails. In the sample sheet row 1 has data, the rows 2 to 11 are ten
  consecutive rows without any value (the look-ahead's own count over them is 10), and
  row 12 has data: the scan does not stop after the ten empty rows, row 12 is scanned and
  emitted.
\<close>

theorem scan_ten_empty_rows_counterexample:
  "scan_row demo_cells 1 \<noteq> []
   \<and> fst (count_empty demo_cells [2 ..< 12]) = 10
   \<and> (12, [(12, 1, ascii ''y'')]) \<in> set (fst (scan_sheet demo_sheet))"
proof -
  have "12 \<in> fst ` set (fst (scan_sheet demo_sheet))"
    using demo_no_stop by (simp add: scan_sheet_rows demo_sheet_def maxRow_def)
  then obtain rf where rf: "rf \<in> set (fst (scan_sheet demo_sheet))" and f: "fst rf = 12"
    by auto
  from rf have "snd rf = scan_row demo_cells (fst rf)"
    using scan_rows_found [of rf demo_cells False "[1 ..< Suc maxRow]"]
    by (simp add: scan_sheet_def demo_sheet_def del: upt_Suc)
  with f demo_row12 have "rf = (12, [(12, 1, ascii ''y'')])"
    by (cases rf) simp
  with rf demo_row1 demo_blank_rows show ?thesis by simp
qed

theorem scan_window_and_stop_witness:
  "12 \<in> fst ` set (fst (scan_sheet demo_sheet))
   \<and> (12, 1) \<in> set (snd (scan_sheet demo_sheet))
   \<and> \<not> stop_here (ws_cell demo_sheet) 11
   \<and> (12::nat) \<le> maxRow \<and> (1::nat) \<le> maxCol"
proof -
  note inst = scan_window_and_stop [of demo_sheet 12]
  have ns: "\<forall>r. 1 \<le> r \<and> r < 12 \<longrightarrow> \<not> stop_here (ws_cell demo_sheet) r"
    using demo_no_stop by (simp add: demo_sheet_def)
  with inst have in12: "12 \<in> fst ` set (fst (scan_sheet demo_sheet))"
    by simp
  then obtain rf where rf: "rf \<in> set (fst (scan_sheet demo_sheet))" and f: "fst rf = 12"
    by auto
  have "(fst rf, 1) \<in> set (snd (scan_sheet demo_sheet))"
    using scan_rows_reads_row [of rf demo_cells False "[1 ..< Suc maxRow]" 1] rf
    by (simp add: scan_sheet_def demo_sheet_def maxCol_def del: upt_Suc)
  with f have rd: "(12, 1) \<in> set (snd (scan_sheet demo_sheet))" by simp
  with inst have "(12::nat) \<le> maxRow \<and> (1::nat) \<le> maxCol" by auto
  with in12 rd ns show ?thesis by simp
qed

section \<open>Properties of the structure extractor\<close>




















lemmas json_eval = JSON_parse_def ascii_def lex_number_def max_safe_integer_def is_digit_def digits_value_def
  unescape_def hex4_def hex_value_def

lemmas extract_eval = extractStructures_def match_at_def match_head_def clean_def trim_def
  is_space_def strip_terminators_def double_quotes_def is_line_terminator_def
  excelLayoutData_def quotationData_def Let_def



lemma strip_comments_id: "\<not> occurs [47, 47] s \<Longrightarrow> strip_comments s = s"
  by (induction s) auto

lemma strip_trailing_commas_id: "\<not> has_trailing_comma s \<Longrightarrow> strip_trailing_commas s = s"
proof (induction s)
  case Nil
  then show ?case by simp
next
  case (Cons c cs)
  from Cons.prems have cs: "\<not> has_trailing_comma cs" by simp
  show ?case
  proof (cases "dropWhile is_space cs")
    case Nil
    with Cons.IH [OF cs] show ?thesis by (simp del: dropWhile_eq_Nil_conv)
  next
    case (Cons d ds)
    with Cons.prems have "c = 44 \<Longrightarrow> \<not> (d = 93 \<or> d = 125)" by auto
    with Cons Cons.IH [OF cs] show ?thesis by auto
  qed
qed

lemma double_quotes_id: "39 \<notin> set s \<Longrightarrow> double_quotes s = s"
  by (induction s) (auto simp: double_quotes_def)

lemma strip_terminators_id: "59 \<notin> set s \<Longrightarrow> 96 \<notin> set s \<Longrightarrow> strip_terminators s = s"
  by (auto simp: strip_terminators_def filter_id_conv)

lemma trim_id: "s = [] \<or> (\<not> is_space (hd s) \<and> \<not> is_space (last s)) \<Longrightarrow> trim s = s"
proof (cases s)
  case Nil
  then show ?thesis by (simp add: trim_def)
next
  case (Cons c cs)
  assume "s = [] \<or> (\<not> is_space (hd s) \<and> \<not> is_space (last s))"
  with Cons have h: "\<not> is_space c" and l: "\<not> is_space (last s)" by auto
  from h Cons have 1: "dropWhile is_space s = s" by simp
  from Cons have "rev s \<noteq> []" by simp
  then obtain d ds where r: "rev s = d # ds" by (cases "rev s") auto
  with Cons have "last s = d" by (metis last_rev list.sel(1) rev_rev_ident hd_rev)
  with l r have 2: "dropWhile is_space (rev s) = rev s" by simp
  show ?thesis by (simp add: trim_def 1 2)
qed

text \<open>
  C3, amended. A literal that holds no \<open>//\<close>, no single quote, no comma before a
  closing bracket, no semicolon and no back-tick (in well-formed JSON these can stand
  inside strings only) and no white space at its ends, as every located literal, which
  starts and ends with a bracket, comes out of the repair pass unchanged; so its parse
  result is the one of parsing it directly.
\<close>

theorem clean_keeps_plain_literal:
  "needs_no_repair s \<Longrightarrow> clean s = s \<and> JSON_parse (clean s) = JSON_parse s"
  by (simp add: needs_no_repair_def clean_def strip_comments_id double_quotes_id
      strip_trailing_commas_id strip_terminators_id trim_id)


text \<open>
  C3, as stated, fails: the literal \<open>["a;b"]\<close> is well-formed JSON for the array of the
  string \<open>a;b\<close>; the repair pass removes the semicolon inside the string, and the
  repaired literal parses to the array of the string \<open>ab\<close>. \<open>extractStructures\<close>
  locates this literal in an answer and returns it repaired so.
\<close>

theorem clean_changes_string_content_counterexample:
  \<open>JSON_parse (ascii ''["a;b"]'') = Inr (JArr [JStr (ascii ''a;b'')])
   \<and> clean (ascii ''["a;b"]'') = ascii ''["ab"]''
   \<and> JSON_parse (clean (ascii ''["a;b"]'')) = Inr (JArr [JStr (ascii ''ab'')])
   \<and> extractStructures (ascii ''const excelLayoutData = ["a;b"]; const quotationData = {};'')
       = Inr (ascii ''["ab"]'', ascii ''{}'')\<close>
proof -
  have 1: \<open>JSON_parse (ascii ''["a;b"]'') = Inr (JArr [JStr (ascii ''a;b'')])\<close>
    by (simp add: json_eval)
  have 2: \<open>clean (ascii ''["a;b"]'') = ascii ''["ab"]''\<close>
    by (simp add: ascii_def clean_def trim_def is_space_def strip_terminators_def
        double_quotes_def)
  have 3: \<open>JSON_parse (ascii ''["ab"]'') = Inr (JArr [JStr (ascii ''ab'')])\<close>
    by (simp add: json_eval)
  have 4: \<open>extractStructures
             (ascii ''const excelLayoutData = ["a;b"]; const quotationData = {};'')
           = Inr (ascii ''["ab"]'', ascii ''{}'')\<close>
    by (simp add: extract_eval ascii_def)
  from 1 2 3 4 show ?thesis by simp
qed

theorem clean_keeps_plain_literal_witness:
  \<open>needs_no_repair (ascii ''[{"a": [1, 20]}]'')
   \<and> clean (ascii ''[{"a": [1, 20]}]'') = ascii ''[{"a": [1, 20]}]''
   \<and> JSON_parse (clean (ascii ''[{"a": [1, 20]}]''))
       = Inr (JArr [JObj [(ascii ''a'', JArr [JNum 1, JNum 20])]])\<close>
proof -
  have n: \<open>needs_no_repair (ascii ''[{"a": [1, 20]}]'')\<close>
    by (simp add: needs_no_repair_def ascii_def is_space_def)
  have p: \<open>JSON_parse (ascii ''[{"a": [1, 20]}]'')
       = Inr (JArr [JObj [(ascii ''a'', JArr [JNum 1, JNum 20])]])\<close>
    by (simp add: json_eval)
  from clean_keeps_plain_literal [OF n] n p show ?thesis by simp
qed

section \<open>The handler does not validate the parsed values\<close>

lemma row_kinds [simp]:
  "title_row \<noteq> main_table_data_row" "header_detail_row \<noteq> main_table_data_row"
  "main_table_header_row \<noteq> main_table_data_row" "title_row \<noteq> header_detail_row"
  "header_detail_row \<noteq> title_row" "main_table_header_row \<noteq> title_row"
  "main_table_header_row \<noteq> header_detail_row"
  by (simp_all add: key_defs ascii_def)












end
